theory Spec2Isabelle
  imports Main "HOL-Library.Sublist"
begin

section \<open>The Mastodon comments widget (static/js/mastodon.js)\<close>

text \<open>
  A JavaScript string is modelled by a \<^typ>\<open>string\<close>: the list of the bytes of its UTF-8
  encoding. Searching for a literal text and percent-encoding agree on that encoding with
  what the platform does on UTF-16 code units. A field of the remote server's JSON that
  the code passes to \<^verbatim>\<open>escapeHtml\<close> or reads with a fallback (\<^verbatim>\<open>x || d\<close>, \<^verbatim>\<open>!x\<close>) is a
  \<^typ>\<open>string option\<close>, \<open>None\<close> standing for null or absent: \<^verbatim>\<open>escapeHtml\<close> calls
  \<^verbatim>\<open>.replace\<close> on its argument and throws a TypeError there. The body, the timestamp
  and the kind of an attachment, which the code only substitutes in, formats or compares,
  are strings.
\<close>

subsection \<open>Errors and the platform\<close>

datatype error =
    InvalidHost        \<comment> \<open>\<^verbatim>\<open>new Error('Invalid Mastodon host')\<close>\<close>
  | InvalidPostId      \<comment> \<open>\<^verbatim>\<open>new Error('Invalid Mastodon post ID')\<close>\<close>
  | HttpError nat      \<comment> \<open>\<^verbatim>\<open>new Error(`HTTP error! status: ${response.status}`)\<close>\<close>
  | TypeError          \<comment> \<open>a property of null is read or written; \<^verbatim>\<open>fetch\<close> is rejected\<close>
  | SyntaxError        \<comment> \<open>an invalid regular expression; a body that is not JSON\<close>
  | RangeError         \<comment> \<open>an invalid language tag\<close>

record emoji =
  shortcode :: "string option"
  emoji_url :: "string option"        \<comment> \<open>\<^verbatim>\<open>emoji.url\<close>\<close>

record media =
  media_type :: string                \<comment> \<open>\<^verbatim>\<open>media.type\<close>\<close>
  media_url :: "string option"        \<comment> \<open>\<^verbatim>\<open>media.url\<close>\<close>
  preview_url :: "string option"
  mime_type :: "string option"
  description :: "string option"

record account =
  display_name :: "string option"
  username :: "string option"
  account_url :: "string option"      \<comment> \<open>\<^verbatim>\<open>account.url\<close>\<close>
  avatar :: "string option"

record comment =
  account :: account
  content :: string
  emojis :: "emoji list option"
  created_at :: string
  comment_url :: "string option"      \<comment> \<open>\<^verbatim>\<open>comment.url\<close>\<close>
  media_attachments :: "media list option"

text \<open>The value \<^verbatim>\<open>response.json()\<close> resolves to, as far as the code looks at it.\<close>

datatype context_data =
    NullData                                \<comment> \<open>the JSON value \<^verbatim>\<open>null\<close>\<close>
  | Data (descendants: "comment list option")   \<comment> \<open>\<open>None\<close>: no \<^verbatim>\<open>descendants\<close> field\<close>

record response =
  ok :: bool
  status :: nat
  json :: "error + context_data"

text \<open>
  What the browser supplies and the repository does not contain:
  \<^item> \<open>regexp_replace source template s\<close> is
    \<^verbatim>\<open>s.replace(new RegExp(source, 'g'), template)\<close> for a \<open>source\<close> that contains a
    syntax character of regular expressions (for a source without one the model below
    computes the result itself);
  \<^item> \<open>toLocaleDateString dateString lang\<close> is
    \<^verbatim>\<open>new Date(dateString).toLocaleDateString(lang, options)\<close> with the options of
    \<^verbatim>\<open>formatDate\<close>;
  \<^item> \<open>fetch url\<close> is what the request to \<open>url\<close> settles to.
\<close>

record platform =
  regexp_replace :: "string \<Rightarrow> string \<Rightarrow> string \<Rightarrow> error + string"
  toLocaleDateString :: "string \<Rightarrow> string \<Rightarrow> error + string"
  fetch :: "string \<Rightarrow> error + response"

subsection \<open>String.prototype.replace with a global regular expression\<close>

text \<open>
  \<^verbatim>\<open>GetSubstitution\<close> of ECMA-262 for a match without capture groups: in the replacement
  template \<^verbatim>\<open>$$\<close> stands for a dollar sign, \<^verbatim>\<open>$&\<close> for the matched text, \<^verbatim>\<open>$`\<close> for
  the text before the match and \<^verbatim>\<open>$'\<close> for the text after it; any other character
  after \<^verbatim>\<open>$\<close> leaves the dollar sign as it is.
\<close>

fun GetSubstitution :: "string \<Rightarrow> string \<Rightarrow> string \<Rightarrow> string \<Rightarrow> string" where
  "GetSubstitution matched pre post [] = []"
| "GetSubstitution matched pre post [c] = [c]"
| "GetSubstitution matched pre post (c # d # t) =
     (if c \<noteq> CHR ''$'' then c # GetSubstitution matched pre post (d # t)
      else if d = CHR ''$'' then CHR ''$'' # GetSubstitution matched pre post t
      else if d = CHR ''&'' then matched @ GetSubstitution matched pre post t
      else if d = CHR 0x60 then pre @ GetSubstitution matched pre post t
      else if d = CHR 0x27 then post @ GetSubstitution matched pre post t
      else CHR ''$'' # GetSubstitution matched pre post (d # t))"

text \<open>
  A regular expression whose source \<open>p\<close> is a non-empty text without syntax characters
  matches exactly the occurrences of \<open>p\<close>; with the flag \<^verbatim>\<open>g\<close> the matches are taken
  from left to right, each search starting behind the previous match. \<open>pre\<close> is the part
  of the subject already passed.
\<close>

function replace_from :: "string \<Rightarrow> string \<Rightarrow> string \<Rightarrow> string \<Rightarrow> string" where
  "replace_from p tpl pre [] = []"
| "replace_from p tpl pre (c # cs) =
     (if p \<noteq> [] \<and> prefix p (c # cs)
      then GetSubstitution p pre (drop (length p) (c # cs)) tpl
             @ replace_from p tpl (pre @ p) (drop (length p) (c # cs))
      else c # replace_from p tpl (pre @ [c]) cs)"
  by pat_completeness auto
termination
  by (relation "measure (\<lambda>(p, tpl, pre, s). length s)") auto

definition replace_global :: "string \<Rightarrow> string \<Rightarrow> string \<Rightarrow> string" where
  "replace_global p tpl s = replace_from p tpl [] s"

definition syntax_char :: "char \<Rightarrow> bool" where
  \<open>syntax_char c \<longleftrightarrow> c \<in> set (CHR 0x5C # ''^$.*+?()[]{}|'')\<close>

definition RegExp_replace :: "platform \<Rightarrow> string \<Rightarrow> string \<Rightarrow> string \<Rightarrow> error + string" where
  "RegExp_replace pf source tpl s =
     (if list_ex syntax_char source then regexp_replace pf source tpl s
      else Inr (replace_global source tpl s))"

subsection \<open>escapeHtml, formatDate\<close>

definition escapeHtml :: "string \<Rightarrow> string" where
  \<open>escapeHtml unsafe =
     replace_global [CHR 0x27] ''&#039;''
       (replace_global ''"'' ''&quot;''
         (replace_global ''>'' ''&gt;''
           (replace_global ''<'' ''&lt;''
             (replace_global ''&'' ''&amp;'' unsafe))))\<close>

text \<open>
  A call \<^verbatim>\<open>escapeHtml(x)\<close> on a field of the remote server's JSON: on null or undefined
  the first \<^verbatim>\<open>.replace\<close> throws.
\<close>

definition escapeHtml_call :: "string option \<Rightarrow> error + string" where
  "escapeHtml_call unsafe = (case unsafe of None \<Rightarrow> Inl TypeError | Some s \<Rightarrow> Inr (escapeHtml s))"

definition formatDate :: "platform \<Rightarrow> string \<Rightarrow> string \<Rightarrow> error + string" where
  "formatDate pf dateString lang = toLocaleDateString pf dateString lang"

text \<open>One statement after another: an exception ends the function.\<close>

definition and_then :: "error + 'a \<Rightarrow> ('a \<Rightarrow> error + 'b) \<Rightarrow> error + 'b" where
  "and_then r f = (case r of Inl e \<Rightarrow> Inl e | Inr x \<Rightarrow> f x)"

subsection \<open>emojify\<close>

text \<open>The replacement template, from the sanitized URL and the sanitized shortcode.\<close>

definition emoji_img :: "string \<Rightarrow> string \<Rightarrow> string" where
  \<open>emoji_img emojiUrl shortcode' =
     ''<img src="'' @ emojiUrl @ ''" alt="'' @ shortcode' @ ''" class="emoji" loading="lazy" />''\<close>

text \<open>
  One round of the loop. \<^verbatim>\<open>escapeHtml(emoji.url)\<close> and \<^verbatim>\<open>escapeHtml(emoji.shortcode)\<close>
  come first and throw on null, so the regular expression is built from a shortcode that
  is a string.
\<close>

definition emojify_step :: "platform \<Rightarrow> emoji \<Rightarrow> string \<Rightarrow> error + string" where
  "emojify_step pf emoji str =
     (case emoji_url emoji of
        None \<Rightarrow> Inl TypeError
      | Some url \<Rightarrow>
         (case shortcode emoji of
            None \<Rightarrow> Inl TypeError
          | Some sc \<Rightarrow>
             (let emojiUrl = escapeHtml url;
                  shortcode' = escapeHtml sc
              in RegExp_replace pf ('':'' @ sc @ '':'') (emoji_img emojiUrl shortcode') str)))"

fun emojify_forEach :: "platform \<Rightarrow> emoji list \<Rightarrow> string \<Rightarrow> error + string" where
  "emojify_forEach pf [] str = Inr str"
| "emojify_forEach pf (emoji # rest) str =
     (case emojify_step pf emoji str of
        Inl e \<Rightarrow> Inl e
      | Inr str' \<Rightarrow> emojify_forEach pf rest str')"

text \<open>\<open>str\<close> is the parameter \<^verbatim>\<open>content\<close>, \<open>list\<close> the parameter \<^verbatim>\<open>emojis\<close>.\<close>

definition emojify :: "platform \<Rightarrow> string \<Rightarrow> emoji list option \<Rightarrow> error + string" where
  "emojify pf str list =
     (case list of
        None \<Rightarrow> Inr str
      | Some es \<Rightarrow> if length es = 0 then Inr str else emojify_forEach pf es str)"

subsection \<open>renderComment, renderComments\<close>

text \<open>\<^verbatim>\<open>x || d\<close> with a text \<open>d\<close>, and with a \<open>d\<close> that may itself be null.\<close>

definition js_or :: "string option \<Rightarrow> string \<Rightarrow> string" where
  "js_or v d = (case v of None \<Rightarrow> d | Some s \<Rightarrow> if s = [] then d else s)"

definition js_or_null :: "string option \<Rightarrow> string option \<Rightarrow> string option" where
  "js_or_null v d = (case v of None \<Rightarrow> d | Some s \<Rightarrow> if s = [] then d else Some s)"

text \<open>
  The body of the loop over the attachments: what one attachment appends, or the
  exception of \<^verbatim>\<open>escapeHtml(media.url)\<close> or \<^verbatim>\<open>escapeHtml(media.preview_url)\<close>, which are
  called before the kind is looked at.
\<close>

definition render_media :: "media \<Rightarrow> error + string" where
  \<open>render_media m =
     and_then (escapeHtml_call (media_url m)) (\<lambda>mediaUrl.
     and_then (escapeHtml_call (preview_url m)) (\<lambda>previewUrl.
       (let mimeType = escapeHtml (js_or (mime_type m) [])
        in Inr
         (if media_type m = ''image'' then
            ''<a href="'' @ mediaUrl
            @ ''" target="_blank" rel="noopener noreferrer">\<newline>                    <img src="''
            @ previewUrl @ ''" alt="'' @ escapeHtml (js_or (description m) ''Image'')
            @ ''" loading="lazy" />\<newline>                </a>''
          else if media_type m = ''video'' \<or> media_type m = ''gifv'' then
            ''<video controls preload="metadata" poster="'' @ previewUrl
            @ ''">\<newline>                    <source src="'' @ mediaUrl
            @ ''" type="'' @ js_or (Some mimeType) ''video/mp4''
            @ ''">\<newline>                </video>''
          else if media_type m = ''audio'' then
            ''<audio controls preload="metadata">\<newline>                    <source src="''
            @ mediaUrl @ ''" type="'' @ js_or (Some mimeType) ''audio/mpeg''
            @ ''">\<newline>                </audio>''
          else []))))\<close>

text \<open>The loop: \<open>html\<close> is \<^verbatim>\<open>attachmentsHtml\<close> so far; the first exception ends it.\<close>

fun media_forEach :: "media list \<Rightarrow> string \<Rightarrow> error + string" where
  "media_forEach [] html = Inr html"
| "media_forEach (m # ms) html =
     (case render_media m of
        Inl e \<Rightarrow> Inl e
      | Inr piece \<Rightarrow> media_forEach ms (html @ piece))"

definition attachmentsHtml :: "comment \<Rightarrow> error + string" where
  \<open>attachmentsHtml c =
     (case media_attachments c of
        None \<Rightarrow> Inr []
      | Some ms \<Rightarrow>
          if length ms > 0
          then and_then (media_forEach ms ''<div class="mastodon-attachments">'')
                 (\<lambda>html. Inr (html @ ''</div>''))
          else Inr [])\<close>

text \<open>The template literal that \<^verbatim>\<open>renderComment\<close> returns, as a function of its eight holes.\<close>

definition comment_template ::
  "string \<Rightarrow> string \<Rightarrow> string \<Rightarrow> string \<Rightarrow> string \<Rightarrow> string \<Rightarrow> string \<Rightarrow> string \<Rightarrow> string" where
  \<open>comment_template avatarUrl displayName accountUrl username' commentUrl timestamp
       content' attachments =
     ''\<newline>        <div class="mastodon-comment">\<newline>            <div class="mastodon-comment-header">\<newline>                <img src="''
     @ avatarUrl @ ''" alt="'' @ displayName
     @ [CHR 0x27] @ ''s avatar" class="mastodon-avatar" loading="lazy" />\<newline>                <div class="mastodon-author">\<newline>                    <a href="''
     @ accountUrl
     @ ''" target="_blank" rel="noopener noreferrer" class="mastodon-author-name">\<newline>                        ''
     @ displayName
     @ ''\<newline>                    </a>\<newline>                    <a href="''
     @ accountUrl
     @ ''" target="_blank" rel="noopener noreferrer" class="mastodon-author-handle">\<newline>                        @''
     @ username'
     @ ''\<newline>                    </a>\<newline>                </div>\<newline>                <a href="''
     @ commentUrl
     @ ''" target="_blank" rel="noopener noreferrer" class="mastodon-comment-date">\<newline>                    ''
     @ timestamp
     @ ''\<newline>                </a>\<newline>            </div>\<newline>            <div class="mastodon-comment-content">\<newline>                ''
     @ content'
     @ ''\<newline>            </div>\<newline>            ''
     @ attachments
     @ ''\<newline>        </div>\<newline>    ''\<close>

text \<open>The statements of \<^verbatim>\<open>renderComment\<close> in the order of the source.\<close>

definition renderComment :: "platform \<Rightarrow> comment \<Rightarrow> string \<Rightarrow> error + string" where
  "renderComment pf c lang =
     and_then (escapeHtml_call (js_or_null (display_name (account c)) (username (account c))))
       (\<lambda>displayName.
     and_then (escapeHtml_call (username (account c))) (\<lambda>username'.
     and_then (escapeHtml_call (account_url (account c))) (\<lambda>accountUrl.
     and_then (escapeHtml_call (avatar (account c))) (\<lambda>avatarUrl.
     and_then (emojify pf (content c) (emojis c)) (\<lambda>content'.
     and_then (formatDate pf (created_at c) lang) (\<lambda>timestamp.
     and_then (escapeHtml_call (comment_url c)) (\<lambda>commentUrl.
     and_then (attachmentsHtml c) (\<lambda>attachments.
       Inr (comment_template avatarUrl displayName accountUrl username' commentUrl timestamp
              content' attachments)))))))))"

definition no_comments_message :: string where
  \<open>no_comments_message =
     ''<p class="mastodon-no-comments">No comments yet. Be the first to comment on Mastodon!</p>''\<close>

text \<open>\<^verbatim>\<open>comments.map(...)\<close>: the fragments in order; the first exception ends the loop.\<close>

fun comments_map :: "platform \<Rightarrow> string \<Rightarrow> comment list \<Rightarrow> error + string list" where
  "comments_map pf lang [] = Inr []"
| "comments_map pf lang (c # cs) =
     (case renderComment pf c lang of
        Inl e \<Rightarrow> Inl e
      | Inr fragment \<Rightarrow>
         (case comments_map pf lang cs of
            Inl e \<Rightarrow> Inl e
          | Inr fragments \<Rightarrow> Inr (fragment # fragments)))"

definition renderComments :: "platform \<Rightarrow> comment list option \<Rightarrow> string \<Rightarrow> error + string" where
  "renderComments pf comments lang =
     (case comments of
        None \<Rightarrow> Inr no_comments_message
      | Some cs \<Rightarrow>
          if length cs = 0 then Inr no_comments_message
          else (case comments_map pf lang cs of
                  Inl e \<Rightarrow> Inl e
                | Inr fragments \<Rightarrow> Inr (concat fragments)))"

subsection \<open>The two validating regular expressions\<close>

text \<open>
  Both patterns of \<^verbatim>\<open>loadMastodonComments\<close> have the form \<^verbatim>\<open>^[...]+$\<close>: the whole
  input is one or more characters of a class (without the flag \<^verbatim>\<open>m\<close> the two anchors
  are the ends of the input). With the flag \<^verbatim>\<open>i\<close> a character belongs to the class when
  its canonical form is the canonical form of a member; without the flag \<^verbatim>\<open>u\<close> the
  canonical form is the upper-case letter, and a character outside ASCII never becomes an
  ASCII one.
\<close>

datatype class_atom = ClassRange char char | ClassChar char

definition ascii_between :: "char \<Rightarrow> char \<Rightarrow> char \<Rightarrow> bool" where
  "ascii_between lo hi c \<longleftrightarrow>
     (of_char lo :: nat) \<le> of_char c \<and> (of_char c :: nat) \<le> of_char hi"

definition Canonicalize :: "char \<Rightarrow> char" where
  "Canonicalize ch =
     (if 97 \<le> (of_char ch :: nat) \<and> (of_char ch :: nat) \<le> 122
      then char_of ((of_char ch :: nat) - 32) else ch)"

fun class_atom_matches :: "bool \<Rightarrow> class_atom \<Rightarrow> char \<Rightarrow> bool" where
  "class_atom_matches ignoreCase (ClassChar a) ch =
     (if ignoreCase then Canonicalize a = Canonicalize ch else a = ch)"
| "class_atom_matches ignoreCase (ClassRange lo hi) ch =
     (if ignoreCase
      then list_ex (\<lambda>n. Canonicalize (char_of n) = Canonicalize ch)
             [of_char lo ..< Suc (of_char hi)]
      else ascii_between lo hi ch)"

definition test_class_plus :: "class_atom list \<Rightarrow> bool \<Rightarrow> string \<Rightarrow> bool" where
  "test_class_plus atoms ignoreCase s \<longleftrightarrow>
     s \<noteq> [] \<and> list_all (\<lambda>ch. list_ex (\<lambda>a. class_atom_matches ignoreCase a ch) atoms) s"

definition host_class :: "class_atom list" where
  \<comment> \<open>\<^verbatim>\<open>[a-z0-9.-]\<close>\<close>
  "host_class =
     [ClassRange (CHR ''a'') (CHR ''z''), ClassRange (CHR ''0'') (CHR ''9''),
      ClassChar (CHR ''.''), ClassChar (CHR ''-'')]"

definition digit_class :: "class_atom list" where
  \<comment> \<open>\<^verbatim>\<open>\d\<close>\<close>
  "digit_class = [ClassRange (CHR ''0'') (CHR ''9'')]"

subsection \<open>encodeURIComponent\<close>

definition uri_unreserved :: "char \<Rightarrow> bool" where
  \<open>uri_unreserved c \<longleftrightarrow>
     ascii_between (CHR ''A'') (CHR ''Z'') c \<or> ascii_between (CHR ''a'') (CHR ''z'') c \<or>
     ascii_between (CHR ''0'') (CHR ''9'') c \<or> c \<in> set (''-_.!~*()'' @ [CHR 0x27])\<close>

definition hex_digit :: "nat \<Rightarrow> char" where
  "hex_digit n = ''0123456789ABCDEF'' ! (n mod 16)"

definition encodeURIComponent :: "string \<Rightarrow> string" where
  "encodeURIComponent s =
     concat (map (\<lambda>c. if uri_unreserved c then [c]
                       else [CHR ''%'', hex_digit (of_char c div 16), hex_digit (of_char c)]) s)"

subsection \<open>The page, loadMastodonComments, initMastodon\<close>

datatype log_entry =
    NotConfigured      \<comment> \<open>\<^verbatim>\<open>console.error('Mastodon host or post ID not configured')\<close>\<close>
  | LoadError error    \<comment> \<open>\<^verbatim>\<open>console.error('Error loading Mastodon comments:', error)\<close>\<close>

text \<open>
  The state the code reads and writes:
  \<^item> \<open>comments_div\<close>: the attributes of the element \<^verbatim>\<open>document.querySelector('.comments')\<close>
    finds, \<open>None\<close> when there is none;
  \<^item> \<open>comments_innerHTML\<close>: the markup of that element;
  \<^item> \<open>comments_list\<close>: the markup inside the element
    \<^verbatim>\<open>document.getElementById('mastodon-comments-list')\<close> finds, \<open>None\<close> when there is none;
  \<^item> \<open>console\<close>: the entries logged; \<open>requests\<close>: the URLs fetched; \<open>unhandled\<close>: the
    exceptions nothing caught.
  The asynchronous function is modelled by the state in which it settles.
\<close>

record world =
  comments_div :: "(string \<rightharpoonup> string) option"
  comments_innerHTML :: string
  comments_list :: "string option"
  console :: "log_entry list"
  requests :: "string list"
  unhandled :: "error list"

definition error_message :: string where
  \<open>error_message =
     ''<p class="mastodon-error">Failed to load comments. Please try again later.</p>''\<close>

definition loading_placeholder :: string where
  \<open>loading_placeholder =
     ''\<newline>                    <p class="mastodon-loading">Loading comments...</p>\<newline>                ''\<close>

text \<open>\<^verbatim>\<open>commentsContainer.innerHTML = html\<close>; a TypeError when the element is null.\<close>

definition set_list_innerHTML :: "string \<Rightarrow> world \<Rightarrow> error + world" where
  "set_list_innerHTML html w =
     (case comments_list w of
        None \<Rightarrow> Inl TypeError
      | Some old \<Rightarrow> Inr (w\<lparr>comments_list := Some html\<rparr>))"

text \<open>The \<^verbatim>\<open>try\<close> block: the state it leaves, and the exception it throws, if any.\<close>

definition try_block :: "platform \<Rightarrow> string \<Rightarrow> string \<Rightarrow> string \<Rightarrow> world \<Rightarrow> world \<times> error option" where
  "try_block pf host postId lang w =
     (if \<not> test_class_plus host_class True host then (w, Some InvalidHost)
      else if \<not> test_class_plus digit_class False postId then (w, Some InvalidPostId)
      else
        (let url = ''https://'' @ encodeURIComponent host @ ''/api/v1/statuses/''
                     @ encodeURIComponent postId @ ''/context'';
             w1 = w\<lparr>requests := requests w @ [url]\<rparr>
         in case fetch pf url of
              Inl e \<Rightarrow> (w1, Some e)
            | Inr response \<Rightarrow>
                if \<not> ok response then (w1, Some (HttpError (status response)))
                else
                  (case json response of
                     Inl e \<Rightarrow> (w1, Some e)
                   | Inr NullData \<Rightarrow> (w1, Some TypeError)
                   | Inr (Data d) \<Rightarrow>
                       (let comments = (case d of None \<Rightarrow> [] | Some cs \<Rightarrow> cs)
                        in case renderComments pf (Some comments) lang of
                             Inl e \<Rightarrow> (w1, Some e)
                           | Inr html \<Rightarrow>
                               (case set_list_innerHTML html w1 of
                                  Inl e \<Rightarrow> (w1, Some e)
                                | Inr w2 \<Rightarrow> (w2, None))))))"

definition catch_block :: "error \<Rightarrow> world \<Rightarrow> world" where
  "catch_block e w =
     (let w1 = w\<lparr>console := console w @ [LoadError e]\<rparr>
      in case set_list_innerHTML error_message w1 of
           Inl e' \<Rightarrow> w1\<lparr>unhandled := unhandled w1 @ [e']\<rparr>
         | Inr w2 \<Rightarrow> w2)"

definition loadMastodonComments :: "platform \<Rightarrow> string \<Rightarrow> string \<Rightarrow> string \<Rightarrow> world \<Rightarrow> world" where
  "loadMastodonComments pf host postId lang w =
     (case try_block pf host postId lang w of
        (w1, None) \<Rightarrow> w1
      | (w1, Some e) \<Rightarrow> catch_block e w1)"

definition falsy :: "string option \<Rightarrow> bool" where
  "falsy v \<longleftrightarrow> v = None \<or> v = Some []"

definition commentsHtml :: "string \<Rightarrow> string" where
  \<open>commentsHtml escapedPostUrl =
     ''\<newline>            <div class="mastodon-comments">\<newline>                <div class="mastodon-comments-header">\<newline>                    <h3>Comments</h3>\<newline>                    ''
     @ (if escapedPostUrl = [] then []
        else ''<a href="'' @ escapedPostUrl
             @ ''" target="_blank" rel="noopener noreferrer" class="mastodon-comment-link">Comment on Mastodon</a>'')
     @ ''\<newline>                </div>\<newline>                <div id="mastodon-comments-list">''
     @ loading_placeholder
     @ ''</div>\<newline>            </div>\<newline>        ''\<close>

definition initMastodon :: "platform \<Rightarrow> world \<Rightarrow> world" where
  \<open>initMastodon pf w =
     (case comments_div w of
        None \<Rightarrow> w
      | Some getAttribute \<Rightarrow>
          (let host = getAttribute ''data-mastodon-host'';
               postId = getAttribute ''data-mastodon-post-id'';
               lang = js_or (getAttribute ''data-page-language'') ''en'';
               postUrl = getAttribute ''data-mastodon-post-url''
           in if falsy host \<or> falsy postId
              then w\<lparr>console := console w @ [NotConfigured]\<rparr>
              else
                (let escapedPostUrl = (if falsy postUrl then [] else escapeHtml (js_or postUrl []));
                     w1 = w\<lparr>comments_innerHTML := commentsHtml escapedPostUrl,
                            comments_list := Some loading_placeholder\<rparr>
                 in loadMastodonComments pf (js_or host []) (js_or postId []) lang w1)))\<close>

section \<open>Notions of the specification\<close>

text \<open>One global replacement of a character by an entity, as the specification words it.\<close>

definition subst_char :: "char \<Rightarrow> string \<Rightarrow> string \<Rightarrow> string" where
  "subst_char c ent s = concat (map (\<lambda>x. if x = c then ent else [x]) s)"

text \<open>The entity equivalent of a character.\<close>

definition html_entity :: "char \<Rightarrow> string" where
  \<open>html_entity c =
     (if c = CHR ''&'' then ''&amp;''
      else if c = CHR ''<'' then ''&lt;''
      else if c = CHR ''>'' then ''&gt;''
      else if c = CHR ''"'' then ''&quot;''
      else if c = CHR 0x27 then ''&#039;''
      else [c])\<close>

definition entities :: "string list" where
  \<open>entities = [''&amp;'', ''&lt;'', ''&gt;'', ''&quot;'', ''&#039;'']\<close>

text \<open>The characters that open or close a tag or an attribute value.\<close>

definition markup_char :: "char \<Rightarrow> bool" where
  \<open>markup_char c \<longleftrightarrow> c \<in> set (''<>"'' @ [CHR 0x27])\<close>

text \<open>A shortcode as the remote server's API documents it: letters, digits, underscores.\<close>

definition word_char :: "char \<Rightarrow> bool" where
  "word_char c \<longleftrightarrow>
     ascii_between (CHR ''A'') (CHR ''Z'') c \<or> ascii_between (CHR ''a'') (CHR ''z'') c \<or>
     ascii_between (CHR ''0'') (CHR ''9'') c \<or> c = CHR ''_''"

text \<open>
  Two replies with the same frame: the same body, emojis and timestamp, and attachments of
  the same kinds in the same order. Every other field may differ.
\<close>

definition same_frame :: "comment \<Rightarrow> comment \<Rightarrow> bool" where
  "same_frame c c' \<longleftrightarrow>
     content c = content c' \<and> emojis c = emojis c' \<and> created_at c = created_at c' \<and>
     map_option (map media_type) (media_attachments c)
       = map_option (map media_type) (media_attachments c')"

text \<open>
  A pair that cannot bring the text \<^verbatim>\<open>:s:\<close> back: its shortcode is made of letters,
  digits and underscores, and its URL has no dollar sign and does not contain \<^verbatim>\<open>:s:\<close>.
\<close>

definition plain_pair :: "string \<Rightarrow> emoji \<Rightarrow> bool" where
  "plain_pair s e \<longleftrightarrow>
     (case shortcode e of
        None \<Rightarrow> False
      | Some sc \<Rightarrow>
         (case emoji_url e of
            None \<Rightarrow> False
          | Some u \<Rightarrow>
              list_all word_char sc \<and> CHR ''$'' \<notin> set u \<and> \<not> sublist ('':'' @ s @ '':'') u))"

text \<open>The characters of \<^verbatim>\<open>[a-z0-9.-]\<close> read without regard to case, and those of \<^verbatim>\<open>\d\<close>.\<close>

definition domain_char :: "char \<Rightarrow> bool" where
  "domain_char c \<longleftrightarrow>
     ascii_between (CHR ''a'') (CHR ''z'') c \<or> ascii_between (CHR ''A'') (CHR ''Z'') c \<or>
     ascii_between (CHR ''0'') (CHR ''9'') c \<or> c = CHR ''.'' \<or> c = CHR ''-''"

definition digit_char :: "char \<Rightarrow> bool" where
  "digit_char c \<longleftrightarrow> ascii_between (CHR ''0'') (CHR ''9'') c"

text \<open>The code of the upper-case form of an ASCII character.\<close>

definition upper_code :: "nat \<Rightarrow> nat" where
  "upper_code k = (if 97 \<le> k \<and> k \<le> 122 then k - 32 else k)"

text \<open>The thread-context endpoint of the remote server.\<close>

definition context_url :: "string \<Rightarrow> string \<Rightarrow> string" where
  "context_url host postId = ''https://'' @ host @ ''/api/v1/statuses/'' @ postId @ ''/context''"

text \<open>The error state: the failure is logged and the list shows the fixed error message.\<close>

definition errored :: "error \<Rightarrow> world \<Rightarrow> world" where
  "errored e w = w\<lparr>console := console w @ [LoadError e], comments_list := Some error_message\<rparr>"

definition known_kind :: "media \<Rightarrow> bool" where
  "known_kind m \<longleftrightarrow> media_type m \<in> {''image'', ''video'', ''gifv'', ''audio''}"

subsection \<open>Example data\<close>

definition test_platform :: platform where
  \<comment> \<open>a platform for the examples: dates are shown as they are, every request fails\<close>
  "test_platform =
     \<lparr>regexp_replace = (\<lambda>source tpl s. Inl SyntaxError),
      toLocaleDateString = (\<lambda>dateString lang. Inr dateString),
      fetch = (\<lambda>url. Inl TypeError)\<rparr>"

definition answering :: "response \<Rightarrow> platform" where
  \<comment> \<open>the same platform, with every request answered by the given response\<close>
  "answering r = test_platform\<lparr>fetch := (\<lambda>url. Inr r)\<rparr>"

definition alice :: account where
  \<open>alice = \<lparr>display_name = Some ''Alice <3'', username = Some ''alice'',
             account_url = Some ''https://example.social/@alice'',
             avatar = Some ''https://example.social/a.png?x=1&y=2''\<rparr>\<close>

definition mallory :: account where
  \<comment> \<open>an account whose fields try to leave their attribute or element\<close>
  \<open>mallory = \<lparr>display_name = Some ''<script>alert(1)</script>'', username = Some ''m"x'',
               account_url = Some ''https://evil.example/"><script>alert(2)</script>'',
               avatar = Some ''x" onerror="alert(3)''\<rparr>\<close>

definition photo :: media where
  \<open>photo = \<lparr>media_type = ''image'', media_url = Some ''https://example.social/m/1.png'',
             preview_url = Some ''https://example.social/m/1s.png'',
             mime_type = Some ''image/png'', description = None\<rparr>\<close>

definition clip :: media where
  \<open>clip = \<lparr>media_type = ''video'', media_url = Some ''https://example.social/m/2.mp4'',
            preview_url = Some ''https://example.social/m/2s.png'', mime_type = None,
            description = Some ''a clip''\<rparr>\<close>

definition sound :: media where
  \<open>sound = \<lparr>media_type = ''audio'', media_url = Some ''https://example.social/m/3.mp3'',
             preview_url = Some ''https://example.social/m/3s.png'', mime_type = Some [],
             description = None\<rparr>\<close>

definition model3d :: media where
  \<open>model3d = \<lparr>media_type = ''unknown'', media_url = Some ''https://example.social/m/4.bin'',
               preview_url = Some ''https://example.social/m/4s.png'', mime_type = None,
               description = None\<rparr>\<close>

definition podcast :: media where
  \<comment> \<open>an audio attachment without a thumbnail\<close>
  \<open>podcast = \<lparr>media_type = ''audio'', media_url = Some ''https://example.social/m/5.mp3'',
               preview_url = None, mime_type = None, description = None\<rparr>\<close>

definition pending :: media where
  \<comment> \<open>an attachment of a kind the code does not know, its file not yet available\<close>
  \<open>pending = \<lparr>media_type = ''unknown'', media_url = None, preview_url = None,
               mime_type = None, description = None\<rparr>\<close>

definition reply1 :: comment where
  \<open>reply1 = \<lparr>account = alice, content = ''<p>Nice post</p>'', emojis = None,
              created_at = ''2024-01-01T10:00:00.000Z'',
              comment_url = Some ''https://example.social/@alice/2'',
              media_attachments = None\<rparr>\<close>

definition reply2 :: comment where
  \<open>reply2 = \<lparr>account = alice, content = ''<p>Look</p>'', emojis = Some [],
              created_at = ''2024-01-02T10:00:00.000Z'',
              comment_url = Some ''https://example.social/@alice/3'',
              media_attachments = Some [photo, model3d, clip, sound]\<rparr>\<close>

definition reply3 :: comment where
  \<open>reply3 = \<lparr>account = alice, content = ''<p>Listen</p>'', emojis = None,
              created_at = ''2024-01-03T10:00:00.000Z'',
              comment_url = Some ''https://example.social/@alice/4'',
              media_attachments = Some [podcast]\<rparr>\<close>

definition reply4 :: comment where
  \<open>reply4 = \<lparr>account = alice, content = ''<p>Uploading</p>'', emojis = None,
              created_at = ''2024-01-04T10:00:00.000Z'',
              comment_url = Some ''https://example.social/@alice/5'',
              media_attachments = Some [pending]\<rparr>\<close>

definition page :: world where
  \<comment> \<open>a page after the skeleton has been injected\<close>
  \<open>page = \<lparr>comments_div = Some [''data-mastodon-host'' \<mapsto> ''example.social'',
                                  ''data-mastodon-post-id'' \<mapsto> ''1''],
            comments_innerHTML = commentsHtml [],
            comments_list = Some loading_placeholder,
            console = [], requests = [], unhandled = []\<rparr>\<close>

section \<open>The sanitizer\<close>

subsection \<open>Replacements whose template has no dollar sign\<close>

lemma GetSubstitution_literal:
  "CHR ''$'' \<notin> set tpl \<Longrightarrow> GetSubstitution m b a tpl = tpl"
  by (induction m b a tpl rule: GetSubstitution.induct) auto

lemma replace_from_char:
  "CHR ''$'' \<notin> set tpl \<Longrightarrow> replace_from [c] tpl pre s = subst_char c tpl s"
  by (induction s arbitrary: pre) (auto simp: subst_char_def GetSubstitution_literal)

lemma subst_char_append: "subst_char c e (xs @ ys) = subst_char c e xs @ subst_char c e ys"
  by (simp add: subst_char_def)

lemma escapeHtml_subst:
  \<open>escapeHtml s =
     subst_char (CHR 0x27) ''&#039;''
       (subst_char (CHR ''"'') ''&quot;''
         (subst_char (CHR ''>'') ''&gt;''
           (subst_char (CHR ''<'') ''&lt;''
             (subst_char (CHR ''&'') ''&amp;'' s))))\<close>
  by (simp add: escapeHtml_def replace_global_def replace_from_char)

lemma subst_chain_single:
  \<open>subst_char (CHR 0x27) ''&#039;''
       (subst_char (CHR ''"'') ''&quot;''
         (subst_char (CHR ''>'') ''&gt;''
           (subst_char (CHR ''<'') ''&lt;''
             (subst_char (CHR ''&'') ''&amp;'' [c])))) = html_entity c\<close>
  by (simp add: subst_char_def html_entity_def)

lemma escapeHtml_append: "escapeHtml (xs @ ys) = escapeHtml xs @ escapeHtml ys"
  by (simp add: escapeHtml_subst subst_char_append)

lemma escapeHtml_Nil: "escapeHtml [] = []"
  by (simp add: escapeHtml_subst subst_char_def)

lemma escapeHtml_single: "escapeHtml [c] = html_entity c"
  by (simp add: escapeHtml_subst subst_chain_single)

lemma escapeHtml_Cons: "escapeHtml (c # s) = html_entity c @ escapeHtml s"
  using escapeHtml_append [of "[c]" s] by (simp add: escapeHtml_single)

lemma escapeHtml_concat_map: "escapeHtml s = concat (map html_entity s)"
  by (induction s) (simp_all add: escapeHtml_Nil escapeHtml_Cons)

lemma html_entity_no_markup: "c \<in> set (html_entity d) \<Longrightarrow> \<not> markup_char c"
  by (auto simp: html_entity_def markup_char_def split: if_splits)

lemma escapeHtml_no_markup: "c \<in> set (escapeHtml s) \<Longrightarrow> \<not> markup_char c"
  by (auto simp: escapeHtml_concat_map dest: html_entity_no_markup)

lemma html_entity_amp:
  "i < length (html_entity c) \<Longrightarrow> html_entity c ! i = CHR ''&''
     \<Longrightarrow> i = 0 \<and> html_entity c \<in> set entities"
  by (auto simp: html_entity_def entities_def nth_Cons' split: if_splits)

lemma escapeHtml_amp:
  "i < length (escapeHtml s) \<Longrightarrow> escapeHtml s ! i = CHR ''&''
     \<Longrightarrow> \<exists>e \<in> set entities. prefix e (drop i (escapeHtml s))"
proof (induction s arbitrary: i)
  case Nil
  then show ?case by (simp add: escapeHtml_Nil)
next
  case (Cons c s)
  let ?h = "html_entity c"
  show ?case
  proof (cases "i < length ?h")
    case True
    with Cons.prems have "html_entity c ! i = CHR ''&''"
      by (simp add: escapeHtml_Cons nth_append)
    with True have "i = 0" and "?h \<in> set entities"
      using html_entity_amp by blast+
    then show ?thesis by (auto simp: escapeHtml_Cons intro!: bexI [of _ ?h])
  next
    case False
    with Cons.prems have "i - length ?h < length (escapeHtml s)"
      and "escapeHtml s ! (i - length ?h) = CHR ''&''"
      by (auto simp: escapeHtml_Cons nth_append)
    from Cons.IH [OF this] False show ?thesis
      by (simp add: escapeHtml_Cons)
  qed
qed

text \<open>
  Claim C2. For every input the output of \<^const>\<open>escapeHtml\<close> contains none of the
  characters \<^verbatim>\<open><\<close>, \<^verbatim>\<open>>\<close>, \<^verbatim>\<open>"\<close>, \<^verbatim>\<open>'\<close>, and at every position of the
  output that holds \<^verbatim>\<open>&\<close> one of the five entities starts.
\<close>

theorem escapeHtml_output:
  "(\<forall>c \<in> set (escapeHtml s). \<not> markup_char c) \<and>
   (\<forall>i < length (escapeHtml s). escapeHtml s ! i = CHR ''&'' \<longrightarrow>
      (\<exists>e \<in> set entities. prefix e (drop i (escapeHtml s))))"
  using escapeHtml_no_markup escapeHtml_amp by blast

theorem escapeHtml_output_witness:
  \<open>escapeHtml ''a<b & "c"'' = ''a&lt;b &amp; &quot;c&quot;'' \<and>
   list_all (\<lambda>c. \<not> markup_char c) (escapeHtml ''a<b & "c"'') \<and>
   (\<exists>e \<in> set entities. prefix e (drop 7 (escapeHtml ''a<b & "c"'')))\<close>
proof -
  have out: \<open>escapeHtml ''a<b & "c"'' = ''a&lt;b &amp; &quot;c&quot;''\<close>
    by (simp add: escapeHtml_concat_map html_entity_def)
  have \<open>(7::nat) < length (escapeHtml ''a<b & "c"'')\<close>
    and \<open>escapeHtml ''a<b & "c"'' ! 7 = CHR ''&''\<close>
    by (simp_all add: out)
  with escapeHtml_output [of \<open>''a<b & "c"''\<close>] out show ?thesis
    by (simp only: list_all_iff) blast
qed

text \<open>
  Claim C3. \<^const>\<open>escapeHtml\<close> is defined on every text (it is a composition of
  terminating recursions) and maps the empty text to itself. It is the composition of the
  five global replacements of a character by its entity, the ampersand first; so every
  character of the input is replaced by its own entity exactly once, and no entity that a
  later replacement introduces is escaped again.
\<close>

theorem escapeHtml_composition:
  \<open>escapeHtml s =
     subst_char (CHR 0x27) ''&#039;''
       (subst_char (CHR ''"'') ''&quot;''
         (subst_char (CHR ''>'') ''&gt;''
           (subst_char (CHR ''<'') ''&lt;''
             (subst_char (CHR ''&'') ''&amp;'' s)))) \<and>
   escapeHtml s = concat (map html_entity s) \<and>
   escapeHtml [] = []\<close>
  using escapeHtml_subst escapeHtml_concat_map escapeHtml_Nil by blast

theorem escapeHtml_composition_witness:
  \<open>escapeHtml ''a < b && c'' = ''a &lt; b &amp;&amp; c'' \<and>
   escapeHtml ''&lt;'' = ''&amp;lt;'' \<and> escapeHtml [] = []\<close>
  using escapeHtml_composition [of \<open>''a < b && c''\<close>]
    escapeHtml_composition [of \<open>''&lt;''\<close>]
  by (simp add: subst_char_def)

section \<open>The list renderer and the attachments\<close>

lemma comments_map_Inr_D:
  "comments_map pf lang cs = Inr fragments \<Longrightarrow>
     list_all2 (\<lambda>c fragment. renderComment pf c lang = Inr fragment) cs fragments"
  by (induction cs arbitrary: fragments) (auto split: sum.splits)

lemma comments_map_Inr_I:
  "list_all2 (\<lambda>c fragment. renderComment pf c lang = Inr fragment) cs fragments \<Longrightarrow>
     comments_map pf lang cs = Inr fragments"
  by (induction cs fragments rule: list_all2_induct) simp_all

lemma comments_map_nth:
  "comments_map pf lang cs = Inr fragments \<longleftrightarrow>
     length fragments = length cs \<and>
     (\<forall>i < length cs. renderComment pf (cs ! i) lang = Inr (fragments ! i))"
proof -
  have "comments_map pf lang cs = Inr fragments \<longleftrightarrow>
     list_all2 (\<lambda>c fragment. renderComment pf c lang = Inr fragment) cs fragments"
    using comments_map_Inr_D comments_map_Inr_I by blast
  also have "\<dots> \<longleftrightarrow> length cs = length fragments \<and>
     (\<forall>i < length cs. renderComment pf (cs ! i) lang = Inr (fragments ! i))"
    by (rule list_all2_conv_all_nth)
  finally show ?thesis by metis
qed

text \<open>
  Claim C8. For an absent or empty collection \<^const>\<open>renderComments\<close> returns exactly the
  fixed "no comments yet" message. For a non-empty collection it returns \<open>out\<close> exactly
  when there are as many fragments as replies, the \<open>i\<close>-th fragment is what
  \<^const>\<open>renderComment\<close> returns for the \<open>i\<close>-th reply, and \<open>out\<close> is their concatenation in
  that order.
\<close>

theorem renderComments_fragments:
  "renderComments pf None lang = Inr no_comments_message \<and>
   renderComments pf (Some []) lang = Inr no_comments_message \<and>
   (cs \<noteq> [] \<longrightarrow>
      (renderComments pf (Some cs) lang = Inr out \<longleftrightarrow>
        (\<exists>fragments. length fragments = length cs \<and>
           (\<forall>i < length cs. renderComment pf (cs ! i) lang = Inr (fragments ! i)) \<and>
           out = concat fragments)))"
proof (intro conjI impI)
  show "renderComments pf None lang = Inr no_comments_message"
    by (simp add: renderComments_def)
  show "renderComments pf (Some []) lang = Inr no_comments_message"
    by (simp add: renderComments_def)
next
  assume "cs \<noteq> []"
  then have eq: "renderComments pf (Some cs) lang =
      (case comments_map pf lang cs of Inl e \<Rightarrow> Inl e | Inr fragments \<Rightarrow> Inr (concat fragments))"
    by (simp add: renderComments_def)
  have "renderComments pf (Some cs) lang = Inr out \<longleftrightarrow>
        (\<exists>fragments. comments_map pf lang cs = Inr fragments \<and> out = concat fragments)"
    unfolding eq by (cases "comments_map pf lang cs") auto
  also have "\<dots> \<longleftrightarrow> (\<exists>fragments. length fragments = length cs \<and>
           (\<forall>i < length cs. renderComment pf (cs ! i) lang = Inr (fragments ! i)) \<and>
           out = concat fragments)"
    unfolding comments_map_nth by (simp only: conj_assoc)
  finally show "renderComments pf (Some cs) lang = Inr out \<longleftrightarrow>
        (\<exists>fragments. length fragments = length cs \<and>
           (\<forall>i < length cs. renderComment pf (cs ! i) lang = Inr (fragments ! i)) \<and>
           out = concat fragments)" .
qed

section \<open>The loader\<close>

subsection \<open>The two patterns, character by character\<close>

lemma of_char_Canonicalize: "(of_char (Canonicalize c) :: nat) = upper_code (of_char c)"
proof -
  have "(of_char c :: nat) - 32 < 256"
    using nat_of_char_less_256 [of c] by arith
  then have "((of_char c :: nat) - 32) mod 256 = of_char c - 32"
    by (rule mod_less)
  then show ?thesis by (simp add: Canonicalize_def upper_code_def)
qed

lemma Canonicalize_eq_iff:
  "Canonicalize a = Canonicalize b \<longleftrightarrow> upper_code (of_char a) = upper_code (of_char b)"
  using of_char_eq_iff [of "Canonicalize a" "Canonicalize b", where ?'a = nat]
  by (simp only: of_char_Canonicalize)

lemma range_matches_ignoreCase:
  "class_atom_matches True (ClassRange lo hi) c \<longleftrightarrow>
     (\<exists>n::nat. of_char lo \<le> n \<and> n \<le> of_char hi \<and> upper_code n = upper_code (of_char c))"
proof -
  have "Canonicalize (char_of n) = Canonicalize c \<longleftrightarrow> upper_code n = upper_code (of_char c)"
    if "n \<le> of_char hi" for n :: nat
  proof -
    from that nat_of_char_less_256 [of hi] have "n < 256" by (rule le_less_trans)
    then have "(of_char (char_of n :: char) :: nat) = n" by simp
    then show ?thesis by (simp only: Canonicalize_eq_iff)
  qed
  then have "(\<exists>n \<in> set [of_char lo ..< Suc (of_char hi)]. Canonicalize (char_of n) = Canonicalize c)
      \<longleftrightarrow> (\<exists>n::nat. of_char lo \<le> n \<and> n \<le> of_char hi \<and> upper_code n = upper_code (of_char c))"
    by (metis atLeastLessThan_iff less_Suc_eq_le set_upt)
  then show ?thesis
    by (simp only: class_atom_matches.simps if_True list_ex_iff)
qed

lemma lower_range_matches:
  "(\<exists>n::nat. 97 \<le> n \<and> n \<le> 122 \<and> upper_code n = upper_code k) \<longleftrightarrow>
     (97 \<le> k \<and> k \<le> 122) \<or> (65 \<le> k \<and> k \<le> 90)"
proof
  assume "\<exists>n::nat. 97 \<le> n \<and> n \<le> 122 \<and> upper_code n = upper_code k"
  then obtain n where "97 \<le> n" "n \<le> 122" "upper_code n = upper_code k" by blast
  then show "(97 \<le> k \<and> k \<le> 122) \<or> (65 \<le> k \<and> k \<le> 90)"
    by (cases "97 \<le> k \<and> k \<le> 122") (simp_all add: upper_code_def, arith)
next
  assume k: "(97 \<le> k \<and> k \<le> 122) \<or> (65 \<le> k \<and> k \<le> 90)"
  show "\<exists>n::nat. 97 \<le> n \<and> n \<le> 122 \<and> upper_code n = upper_code k"
  proof (cases "97 \<le> k \<and> k \<le> 122")
    case True
    then show ?thesis by blast
  next
    case False
    with k have "97 \<le> k + 32 \<and> k + 32 \<le> 122 \<and> upper_code (k + 32) = upper_code k"
      by (simp add: upper_code_def)
    then show ?thesis by blast
  qed
qed

lemma digit_range_matches:
  "(\<exists>n::nat. 48 \<le> n \<and> n \<le> 57 \<and> upper_code n = upper_code k) \<longleftrightarrow> 48 \<le> k \<and> k \<le> 57"
proof
  assume "\<exists>n::nat. 48 \<le> n \<and> n \<le> 57 \<and> upper_code n = upper_code k"
  then obtain n where "48 \<le> n" "n \<le> 57" "upper_code n = upper_code k" by blast
  then show "48 \<le> k \<and> k \<le> 57"
    by (cases "97 \<le> k \<and> k \<le> 122") (simp_all add: upper_code_def, arith)
next
  assume "48 \<le> k \<and> k \<le> 57"
  then show "\<exists>n::nat. 48 \<le> n \<and> n \<le> 57 \<and> upper_code n = upper_code k" by blast
qed

lemma single_matches:
  "n < 65 \<Longrightarrow> upper_code n = upper_code k \<longleftrightarrow> n = k"
  by (auto simp: upper_code_def)

lemma host_class_char:
  "list_ex (\<lambda>a. class_atom_matches True a c) host_class \<longleftrightarrow> domain_char c"
proof -
  define k :: nat where "k = of_char c"
  have dot: "Canonicalize (CHR ''.'') = Canonicalize c \<longleftrightarrow> k = 46"
    using single_matches [of 46 k] by (simp add: Canonicalize_eq_iff k_def)
  have dash: "Canonicalize (CHR ''-'') = Canonicalize c \<longleftrightarrow> k = 45"
    using single_matches [of 45 k] by (simp add: Canonicalize_eq_iff k_def)
  have az: "class_atom_matches True (ClassRange (CHR ''a'') (CHR ''z'')) c
      \<longleftrightarrow> (97 \<le> k \<and> k \<le> 122) \<or> (65 \<le> k \<and> k \<le> 90)"
    unfolding range_matches_ignoreCase k_def [symmetric]
    using lower_range_matches [of k] by simp
  have d09: "class_atom_matches True (ClassRange (CHR ''0'') (CHR ''9'')) c
      \<longleftrightarrow> (48 \<le> k \<and> k \<le> 57)"
    unfolding range_matches_ignoreCase k_def [symmetric]
    using digit_range_matches [of k] by simp
  have c46: "c = CHR ''.'' \<longleftrightarrow> k = 46" and c45: "c = CHR ''-'' \<longleftrightarrow> k = 45"
    unfolding k_def using of_char_eq_iff [of c "CHR ''.''", where ?'a = nat]
      of_char_eq_iff [of c "CHR ''-''", where ?'a = nat] by simp_all
  have "list_ex (\<lambda>a. class_atom_matches True a c) host_class \<longleftrightarrow>
      class_atom_matches True (ClassRange (CHR ''a'') (CHR ''z'')) c \<or>
      class_atom_matches True (ClassRange (CHR ''0'') (CHR ''9'')) c \<or>
      Canonicalize (CHR ''.'') = Canonicalize c \<or> Canonicalize (CHR ''-'') = Canonicalize c"
    by (simp add: host_class_def del: class_atom_matches.simps(2))
  also have "\<dots> \<longleftrightarrow> (97 \<le> k \<and> k \<le> 122) \<or> (65 \<le> k \<and> k \<le> 90) \<or> (48 \<le> k \<and> k \<le> 57)
      \<or> k = 46 \<or> k = 45"
    unfolding az d09 dot dash by blast
  also have "\<dots> \<longleftrightarrow> domain_char c"
    unfolding domain_char_def ascii_between_def c46 c45 by (simp add: k_def)
  finally show ?thesis .
qed

lemma digit_class_char:
  "list_ex (\<lambda>a. class_atom_matches False a c) digit_class \<longleftrightarrow> digit_char c"
  by (simp add: digit_class_def digit_char_def ascii_between_def)

lemma test_host_iff:
  "test_class_plus host_class True host \<longleftrightarrow> host \<noteq> [] \<and> list_all domain_char host"
  by (simp add: test_class_plus_def host_class_char)

lemma test_post_id_iff:
  "test_class_plus digit_class False postId \<longleftrightarrow> postId \<noteq> [] \<and> list_all digit_char postId"
  by (simp add: test_class_plus_def digit_class_char)

subsection \<open>The outcomes of loadMastodonComments\<close>

lemma domain_char_unreserved: "domain_char c \<Longrightarrow> uri_unreserved c"
  by (auto simp: domain_char_def uri_unreserved_def)

lemma digit_char_unreserved: "digit_char c \<Longrightarrow> uri_unreserved c"
  by (auto simp: digit_char_def uri_unreserved_def)

lemma encodeURIComponent_unreserved:
  "list_all uri_unreserved s \<Longrightarrow> encodeURIComponent s = s"
  by (induction s) (simp_all add: encodeURIComponent_def)

lemma request_url:
  assumes "test_class_plus host_class True host" "test_class_plus digit_class False postId"
  shows "''https://'' @ encodeURIComponent host @ ''/api/v1/statuses/''
           @ encodeURIComponent postId @ ''/context'' = context_url host postId"
proof -
  from assms(1) have "list_all uri_unreserved host"
    by (auto simp: test_host_iff list_all_iff intro: domain_char_unreserved)
  moreover from assms(2) have "list_all uri_unreserved postId"
    by (auto simp: test_post_id_iff list_all_iff intro: digit_char_unreserved)
  ultimately show ?thesis
    by (simp only: encodeURIComponent_unreserved context_url_def)
qed

lemma catch_block_errored:
  "comments_list w = Some old \<Longrightarrow> catch_block e w = errored e w"
  by (simp add: catch_block_def set_list_innerHTML_def errored_def)

lemma try_block_invalid_host:
  "\<not> test_class_plus host_class True host \<Longrightarrow>
     try_block pf host postId lang w = (w, Some InvalidHost)"
  by (simp add: try_block_def)

lemma try_block_invalid_post_id:
  "test_class_plus host_class True host \<Longrightarrow> \<not> test_class_plus digit_class False postId \<Longrightarrow>
     try_block pf host postId lang w = (w, Some InvalidPostId)"
  by (simp add: try_block_def)

lemma try_block_valid:
  assumes "test_class_plus host_class True host" "test_class_plus digit_class False postId"
  shows "try_block pf host postId lang w =
     (let url = context_url host postId;
          w1 = w\<lparr>requests := requests w @ [url]\<rparr>
      in case fetch pf url of
           Inl e \<Rightarrow> (w1, Some e)
         | Inr response \<Rightarrow>
             if \<not> ok response then (w1, Some (HttpError (status response)))
             else
               (case json response of
                  Inl e \<Rightarrow> (w1, Some e)
                | Inr NullData \<Rightarrow> (w1, Some TypeError)
                | Inr (Data d) \<Rightarrow>
                    (case renderComments pf (Some (case d of None \<Rightarrow> [] | Some cs \<Rightarrow> cs)) lang of
                       Inl e \<Rightarrow> (w1, Some e)
                     | Inr html \<Rightarrow>
                         (case set_list_innerHTML html w1 of
                            Inl e \<Rightarrow> (w1, Some e)
                          | Inr w2 \<Rightarrow> (w2, None)))))"
  unfolding try_block_def Let_def request_url [OF assms]
  using assms by simp

lemma load_invalid_host:
  "comments_list w = Some old \<Longrightarrow> \<not> test_class_plus host_class True host \<Longrightarrow>
     loadMastodonComments pf host postId lang w = errored InvalidHost w"
  by (simp add: loadMastodonComments_def try_block_invalid_host catch_block_errored)

lemma load_invalid_post_id:
  "comments_list w = Some old \<Longrightarrow> test_class_plus host_class True host \<Longrightarrow>
     \<not> test_class_plus digit_class False postId \<Longrightarrow>
     loadMastodonComments pf host postId lang w = errored InvalidPostId w"
  by (simp add: loadMastodonComments_def try_block_invalid_post_id catch_block_errored)





lemma load_render_failed:
  assumes "comments_list w = Some old"
    and "test_class_plus host_class True host" "test_class_plus digit_class False postId"
    and "fetch pf (context_url host postId) = Inr r" "ok r" "json r = Inr (Data d)"
    and "renderComments pf (Some (case d of None \<Rightarrow> [] | Some cs \<Rightarrow> cs)) lang = Inl e"
  shows "loadMastodonComments pf host postId lang w =
     errored e (w\<lparr>requests := requests w @ [context_url host postId]\<rparr>)"
  using assms(1,4,5,6,7)
  by (simp add: loadMastodonComments_def try_block_valid [OF assms(2,3)] catch_block_errored)


lemma load_requests:
  "requests (loadMastodonComments pf host postId lang w) =
     (if test_class_plus host_class True host \<and> test_class_plus digit_class False postId
      then requests w @ [context_url host postId] else requests w)"
proof (cases "test_class_plus host_class True host \<and> test_class_plus digit_class False postId")
  case True
  then have v: "test_class_plus host_class True host" "test_class_plus digit_class False postId"
    by simp_all
  show ?thesis
    using True
    by (simp add: loadMastodonComments_def try_block_valid [OF v] catch_block_def
          set_list_innerHTML_def Let_def
          split: sum.splits context_data.splits option.splits prod.splits)
next
  case False
  then show ?thesis
    by (auto simp: loadMastodonComments_def try_block_def catch_block_def
          set_list_innerHTML_def Let_def split: option.splits)
qed

lemma errored_requests: "requests (errored e w) = requests w"
  by (simp add: errored_def)

lemma example_hosts:
  "test_class_plus host_class True ''example.social''"
  "\<not> test_class_plus host_class True ''example.com/evil''"
  "test_class_plus digit_class False ''12345''"
  "\<not> test_class_plus digit_class False ''12a''"
  "test_class_plus digit_class False ''1''"
  by (simp_all add: test_host_iff test_post_id_iff domain_char_def digit_char_def ascii_between_def)

text \<open>
  Claim C4. The host is accepted exactly when it is a non-empty text of letters of either
  case, digits, dots and hyphens, the post identifier exactly when it is a non-empty text
  of digits; the four examples of the specification come out as it says. When either is
  rejected, \<^const>\<open>loadMastodonComments\<close> ends in the error state (the failure logged, the
  fixed error message in the list) and no request has been issued; when both are accepted,
  one request goes to the thread-context endpoint.
\<close>

theorem input_validation:
  "(test_class_plus host_class True host \<longleftrightarrow> host \<noteq> [] \<and> list_all domain_char host) \<and>
   (test_class_plus digit_class False postId \<longleftrightarrow> postId \<noteq> [] \<and> list_all digit_char postId) \<and>
   test_class_plus host_class True ''example.social'' \<and>
   \<not> test_class_plus host_class True ''example.com/evil'' \<and>
   test_class_plus digit_class False ''12345'' \<and>
   \<not> test_class_plus digit_class False ''12a'' \<and>
   (comments_list w = Some old \<longrightarrow>
    \<not> (test_class_plus host_class True host \<and> test_class_plus digit_class False postId) \<longrightarrow>
      (\<exists>e. loadMastodonComments pf host postId lang w = errored e w) \<and>
      requests (loadMastodonComments pf host postId lang w) = requests w) \<and>
   (test_class_plus host_class True host \<and> test_class_plus digit_class False postId \<longrightarrow>
      requests (loadMastodonComments pf host postId lang w)
        = requests w @ [context_url host postId])"
proof -
  have "(\<exists>e. loadMastodonComments pf host postId lang w = errored e w) \<and>
      requests (loadMastodonComments pf host postId lang w) = requests w"
    if "comments_list w = Some old"
      and "\<not> (test_class_plus host_class True host \<and> test_class_plus digit_class False postId)"
  proof (cases "test_class_plus host_class True host")
    case True
    with that have "loadMastodonComments pf host postId lang w = errored InvalidPostId w"
      by (simp add: load_invalid_post_id)
    then show ?thesis using errored_requests [of _ w] by metis
  next
    case False
    with that have "loadMastodonComments pf host postId lang w = errored InvalidHost w"
      by (simp add: load_invalid_host)
    then show ?thesis using errored_requests [of _ w] by metis
  qed
  moreover have "requests (loadMastodonComments pf host postId lang w)
        = requests w @ [context_url host postId]"
    if "test_class_plus host_class True host \<and> test_class_plus digit_class False postId"
    using that by (simp add: load_requests)
  ultimately show ?thesis
    using test_host_iff [of host] test_post_id_iff [of postId] example_hosts(1-4)
    by blast
qed

theorem input_validation_witness:
  "(\<exists>e. loadMastodonComments test_platform ''example.com/evil'' ''12345'' ''en'' page
          = errored e page) \<and>
   requests (loadMastodonComments test_platform ''example.com/evil'' ''12345'' ''en'' page) = [] \<and>
   requests (loadMastodonComments test_platform ''example.social'' ''12345'' ''en'' page)
     = [''https://example.social/api/v1/statuses/12345/context'']"
  using input_validation [of "''example.com/evil''" "''12345''" page loading_placeholder
      test_platform "''en''"]
    input_validation [of "''example.social''" "''12345''" page loading_placeholder
      test_platform "''en''"]
  by (simp add: page_def context_url_def)



text \<open>
  Claim C9. Without the element of class \<^verbatim>\<open>comments\<close>, \<^const>\<open>initMastodon\<close> changes
  nothing: no markup, no request, no log entry. When the host or the post identifier
  attribute is missing or empty, it logs one entry and changes nothing else.
\<close>

theorem initMastodon_frame:
  "(comments_div w = None \<longrightarrow> initMastodon pf w = w) \<and>
   (\<forall>getAttribute. comments_div w = Some getAttribute \<longrightarrow>
      falsy (getAttribute ''data-mastodon-host'') \<or> falsy (getAttribute ''data-mastodon-post-id'') \<longrightarrow>
      initMastodon pf w = w\<lparr>console := console w @ [NotConfigured]\<rparr>)"
  by (simp add: initMastodon_def Let_def)

theorem initMastodon_frame_witness:
  "initMastodon test_platform (page\<lparr>comments_div := None\<rparr>) = page\<lparr>comments_div := None\<rparr> \<and>
   initMastodon test_platform (page\<lparr>comments_div := Some [''data-mastodon-host'' \<mapsto> ''example.social'']\<rparr>)
     = page\<lparr>comments_div := Some [''data-mastodon-host'' \<mapsto> ''example.social''],
            console := [NotConfigured]\<rparr> \<and>
   initMastodon test_platform
       (page\<lparr>comments_div := Some [''data-mastodon-host'' \<mapsto> [], ''data-mastodon-post-id'' \<mapsto> ''1'']\<rparr>)
     = page\<lparr>comments_div := Some [''data-mastodon-host'' \<mapsto> [], ''data-mastodon-post-id'' \<mapsto> ''1''],
            console := [NotConfigured]\<rparr>"
  using initMastodon_frame [of "page\<lparr>comments_div := None\<rparr>" test_platform]
    initMastodon_frame [of "page\<lparr>comments_div := Some [''data-mastodon-host'' \<mapsto> ''example.social'']\<rparr>"
      test_platform]
    initMastodon_frame [of "page\<lparr>comments_div := Some [''data-mastodon-host'' \<mapsto> [], ''data-mastodon-post-id'' \<mapsto> ''1'']\<rparr>"
      test_platform]
  by (simp add: falsy_def page_def)

section \<open>Null fields of a reply\<close>

lemma and_then_Inl [simp]: "and_then (Inl e) f = Inl e"
  by (simp add: and_then_def)

lemma and_then_Inr [simp]: "and_then (Inr x) f = f x"
  by (simp add: and_then_def)

lemma and_then_eq_Inr:
  "and_then r f = Inr y \<longleftrightarrow> (\<exists>x. r = Inr x \<and> f x = Inr y)"
  by (cases r) simp_all

lemma escapeHtml_call_simps [simp]:
  "escapeHtml_call None = Inl TypeError" "escapeHtml_call (Some s) = Inr (escapeHtml s)"
  by (simp_all add: escapeHtml_call_def)

lemma escapeHtml_call_eq_Inr:
  "escapeHtml_call v = Inr y \<longleftrightarrow> (\<exists>s. v = Some s \<and> y = escapeHtml s)"
  by (cases v) auto

lemma render_media_null:
  "media_url m = None \<or> preview_url m = None \<Longrightarrow> render_media m = Inl TypeError"
  by (cases "media_url m") (auto simp: render_media_def)

lemma media_forEach_null:
  "m \<in> set ms \<Longrightarrow> render_media m = Inl e \<Longrightarrow> \<exists>e'. media_forEach ms html = Inl e'"
  by (induction ms arbitrary: html) (auto split: sum.splits)

lemma attachmentsHtml_null:
  assumes "media_attachments c = Some ms" "m \<in> set ms" "media_url m = None \<or> preview_url m = None"
  shows "\<exists>e. attachmentsHtml c = Inl e"
proof -
  from assms(2) have "ms \<noteq> []" by auto
  moreover from media_forEach_null [OF assms(2) render_media_null [OF assms(3)]]
  obtain e where \<open>media_forEach ms ''<div class="mastodon-attachments">'' = Inl e\<close> by blast
  ultimately show ?thesis using assms(1) by (simp add: attachmentsHtml_def)
qed

lemma renderComment_needs_attachments:
  "renderComment pf c lang = Inr out \<Longrightarrow> \<exists>attachments. attachmentsHtml c = Inr attachments"
  unfolding renderComment_def and_then_eq_Inr by blast

lemma renderComment_null:
  assumes "media_attachments c = Some ms" "m \<in> set ms" "media_url m = None \<or> preview_url m = None"
  shows "renderComment pf c lang \<noteq> Inr out"
  using attachmentsHtml_null [OF assms] renderComment_needs_attachments [of pf c lang out] by auto

lemmas example_defs =
  alice_def photo_def clip_def sound_def model3d_def podcast_def pending_def
  reply1_def reply2_def reply3_def reply4_def

lemmas render_eval =
  renderComment_def attachmentsHtml_def render_media_def emojify_def formatDate_def
  js_or_null_def js_or_def test_platform_def answering_def Let_def escapeHtml_Nil

lemma reply4_throws: "renderComment test_platform reply4 ''en'' = Inl TypeError"
  by (simp add: render_eval example_defs)

lemma reply3_throws: "renderComment test_platform reply3 ''en'' = Inl TypeError"
  by (simp add: render_eval example_defs)

lemma reply1_renders: "\<exists>f. renderComment test_platform reply1 ''en'' = Inr f"
  by (simp add: render_eval example_defs)

lemma reply2_renders: "\<exists>f. renderComment test_platform reply2 ''en'' = Inr f"
  by (simp add: render_eval example_defs)

lemma reply1_reply4_fail:
  "renderComments (answering \<lparr>ok = True, status = 200, json = Inr (Data (Some [reply1, reply4]))\<rparr>)
     (Some [reply1, reply4]) ''en'' = Inl TypeError"
  by (simp add: renderComments_def render_eval example_defs)

text \<open>
  Claim C10. The code does not do what the claim says for an attachment whose
  \<^verbatim>\<open>url\<close> or \<^verbatim>\<open>preview_url\<close> is null: \<^verbatim>\<open>escapeHtml\<close> is called on both before the
  kind is looked at and throws, where the MIME type and the description next to them are
  read with a fallback. Such an attachment of an unknown kind is not dropped, and an audio
  attachment without a thumbnail gets no \<^verbatim>\<open>audio/mpeg\<close>: \<^const>\<open>render_media\<close> throws a
  TypeError, \<^const>\<open>renderComment\<close> returns no fragment for any reply that holds such an
  attachment, and \<^const>\<open>loadMastodonComments\<close> replaces the whole list by the error
  message. With both URLs present (\<^const>\<open>model3d\<close>) the unknown kind is dropped as the
  claim says.
\<close>

theorem attachment_without_url:
  "(media_url m = None \<or> preview_url m = None \<longrightarrow> render_media m = Inl TypeError) \<and>
   (media_attachments c = Some ms \<and> m \<in> set ms \<and> (media_url m = None \<or> preview_url m = None) \<longrightarrow>
      renderComment pf c lang \<noteq> Inr out) \<and>
   render_media pending = Inl TypeError \<and>
   render_media podcast = Inl TypeError \<and>
   render_media model3d = Inr [] \<and>
   renderComment test_platform reply4 ''en'' = Inl TypeError \<and>
   renderComment test_platform reply3 ''en'' = Inl TypeError \<and>
   loadMastodonComments
       (answering \<lparr>ok = True, status = 200, json = Inr (Data (Some [reply1, reply4]))\<rparr>)
       ''example.social'' ''1'' ''en'' page
     = errored TypeError
         (page\<lparr>requests := [''https://example.social/api/v1/statuses/1/context'']\<rparr>)"
proof -
  have p: "comments_list page = Some loading_placeholder" by (simp add: page_def)
  have r: "requests page = []" by (simp add: page_def)
  have "loadMastodonComments
       (answering \<lparr>ok = True, status = 200, json = Inr (Data (Some [reply1, reply4]))\<rparr>)
       ''example.social'' ''1'' ''en'' page
     = errored TypeError
         (page\<lparr>requests := requests page @ [context_url ''example.social'' ''1'']\<rparr>)"
    using reply1_reply4_fail
    by (intro load_render_failed [OF p example_hosts(1) example_hosts(5),
          where r = "\<lparr>ok = True, status = 200, json = Inr (Data (Some [reply1, reply4]))\<rparr>"
            and d = "Some [reply1, reply4]"])
      (simp_all add: answering_def)
  then have load: "loadMastodonComments
       (answering \<lparr>ok = True, status = 200, json = Inr (Data (Some [reply1, reply4]))\<rparr>)
       ''example.social'' ''1'' ''en'' page
     = errored TypeError
         (page\<lparr>requests := [''https://example.social/api/v1/statuses/1/context'']\<rparr>)"
    by (simp add: r context_url_def)
  have "render_media pending = Inl TypeError" "render_media podcast = Inl TypeError"
    "render_media model3d = Inr []"
    by (simp_all add: render_media_def example_defs)
  with load reply3_throws reply4_throws show ?thesis
    using render_media_null [of m] renderComment_null [of c ms m pf lang out] by blast
qed

theorem attachment_without_url_witness:
  "preview_url podcast = None \<and> render_media podcast = Inl TypeError \<and>
   media_attachments reply3 = Some [podcast] \<and>
   renderComment test_platform reply3 ''en'' \<noteq> Inr []"
  using attachment_without_url [of podcast reply3 "[podcast]" test_platform "''en''" "[]"]
  by (simp add: podcast_def reply3_def)

text \<open>Claim C8 at two replies, the second with four attachments.\<close>

theorem renderComments_fragments_witness:
  "\<exists>f1 f2. renderComment test_platform reply1 ''en'' = Inr f1 \<and>
      renderComment test_platform reply2 ''en'' = Inr f2 \<and>
      renderComments test_platform (Some [reply1, reply2]) ''en'' = Inr (f1 @ f2)"
proof -
  from reply1_renders obtain f1 where f1: "renderComment test_platform reply1 ''en'' = Inr f1" ..
  from reply2_renders obtain f2 where f2: "renderComment test_platform reply2 ''en'' = Inr f2" ..
  have "\<forall>i < length [reply1, reply2].
          renderComment test_platform ([reply1, reply2] ! i) ''en'' = Inr ([f1, f2] ! i)"
    using f1 f2 by (simp add: nth_Cons' less_Suc_eq)
  then have "\<exists>fragments. length fragments = length [reply1, reply2] \<and>
      (\<forall>i < length [reply1, reply2].
          renderComment test_platform ([reply1, reply2] ! i) ''en'' = Inr (fragments ! i)) \<and>
      f1 @ f2 = concat fragments"
    by (intro exI [of _ "[f1, f2]"]) simp
  moreover have "[reply1, reply2] \<noteq> []" by simp
  ultimately have "renderComments test_platform (Some [reply1, reply2]) ''en'' = Inr (f1 @ f2)"
    using renderComments_fragments [of test_platform "''en''" "[reply1, reply2]" "f1 @ f2"]
    by blast
  with f1 f2 show ?thesis by blast
qed

section \<open>Emoji substitution\<close>

subsection \<open>Occurrences of a text before and after a replacement\<close>

lemma replace_from_no_match:
  "\<not> sublist p s \<Longrightarrow> replace_from p tpl pre s = s"
proof (induction s arbitrary: pre)
  case Nil
  show ?case by simp
next
  case (Cons c cs)
  from Cons.prems have "\<not> prefix p (c # cs)" and "\<not> sublist p cs"
    by (auto simp: sublist_Cons_right)
  with Cons.IH show ?case by simp
qed

lemma replace_from_prefix:
  assumes "CHR ''$'' \<notin> set R" "R \<noteq> []" "hd R \<notin> set X"
  shows "prefix X (replace_from p R pre s) \<Longrightarrow> prefix X s"
  using assms(3)
proof (induction s arbitrary: pre X)
  case Nil
  then show ?case by simp
next
  case (Cons c cs)
  show ?case
  proof (cases "p \<noteq> [] \<and> prefix p (c # cs)")
    case True
    with Cons.prems(1) assms(1) have "prefix X (R @ replace_from p R (pre @ p) (drop (length p) (c # cs)))"
      by (simp add: GetSubstitution_literal)
    with assms(2) Cons.prems(2) have "X = []"
      by (cases X; cases R) auto
    then show ?thesis by simp
  next
    case False
    with Cons.prems(1) have p: "prefix X (c # replace_from p R (pre @ [c]) cs)"
      by auto
    show ?thesis
    proof (cases X)
      case Nil
      then show ?thesis by simp
    next
      case (Cons x X')
      with p Cons.prems(2) have "x = c" "prefix X' (replace_from p R (pre @ [c]) cs)" "hd R \<notin> set X'"
        by auto
      with Cons.IH [of X' "pre @ [c]"] Cons show ?thesis by simp
    qed
  qed
qed

lemma sublist_append_cases:
  assumes "sublist q (xs @ ys)"
  obtains "sublist q xs" | "sublist q ys"
  | q1 q2 where "q = q1 @ q2" "q1 \<noteq> []" "q2 \<noteq> []" "suffix q1 xs" "prefix q2 ys"
proof -
  from assms consider "sublist q xs" | "sublist q ys"
    | q1 q2 where "q = q1 @ q2" "suffix q1 xs" "prefix q2 ys"
    unfolding sublist_append by blast
  then show thesis
  proof cases
    case 1 then show ?thesis by (rule that(1))
  next
    case 2 then show ?thesis by (rule that(2))
  next
    case (3 q1 q2)
    show ?thesis
    proof (cases "q1 = [] \<or> q2 = []")
      case True
      with 3 have "sublist q xs \<or> sublist q ys" by auto
      then show ?thesis using that(1,2) by blast
    next
      case False
      with 3 show ?thesis using that(3) by blast
    qed
  qed
qed

lemma suffix_last_mem: "suffix q1 R \<Longrightarrow> q1 \<noteq> [] \<Longrightarrow> last R \<in> set q1"
  by (metis last_appendR last_in_set suffix_def)

lemma prefix_hd_mem: "prefix q2 R \<Longrightarrow> q2 \<noteq> [] \<Longrightarrow> hd R \<in> set q2"
  by (metis hd_append2 hd_in_set prefix_def)

lemma no_occurrence_append:
  assumes "\<not> sublist q R" "\<not> sublist q rest" "last R \<notin> set q"
  shows "\<not> sublist q (R @ rest)"
proof
  assume "sublist q (R @ rest)"
  then show False
  proof (cases rule: sublist_append_cases)
    case 1 with assms(1) show ?thesis by simp
  next
    case 2 with assms(2) show ?thesis by simp
  next
    case (3 q1 q2)
    then have "last R \<in> set q" using suffix_last_mem [of q1 R] by auto
    with assms(3) show ?thesis by simp
  qed
qed

lemma replace_from_consumes:
  assumes "CHR ''$'' \<notin> set R" "R \<noteq> []" "hd R \<notin> set p" "last R \<notin> set p" "\<not> sublist p R"
  shows "\<not> sublist p (replace_from p R pre s)"
proof (induction s arbitrary: pre rule: length_induct)
  case (1 s)
  show ?case
  proof (cases s)
    case Nil
    with assms(5) show ?thesis by (cases p) auto
  next
    case (Cons c cs)
    show ?thesis
    proof (cases "p \<noteq> [] \<and> prefix p (c # cs)")
      case True
      let ?rest = "drop (length p) (c # cs)"
      from True have "length ?rest < length s" by (simp add: Cons)
      with 1 have "\<not> sublist p (replace_from p R (pre @ p) ?rest)" by blast
      with assms have "\<not> sublist p (R @ replace_from p R (pre @ p) ?rest)"
        by (intro no_occurrence_append)
      with True assms(1) show ?thesis by (simp add: Cons GetSubstitution_literal)
    next
      case False
      have nonempty: "p \<noteq> []" using assms(5) by auto
      with False have np: "\<not> prefix p s" by (simp add: Cons)
      have "\<not> sublist p (replace_from p R (pre @ [c]) cs)"
        using 1 by (simp add: Cons)
      moreover have "\<not> prefix p (replace_from p R pre s)"
        using replace_from_prefix [OF assms(1,2,3)] np by blast
      ultimately show ?thesis
        using False nonempty by (cases p) (auto simp: Cons sublist_Cons_right)
    qed
  qed
qed

lemma replace_from_preserves:
  assumes "CHR ''$'' \<notin> set R" "R \<noteq> []" "hd R \<notin> set q" "last R \<notin> set q" "\<not> sublist q R"
  shows "\<not> sublist q s \<Longrightarrow> \<not> sublist q (replace_from p R pre s)"
proof (induction s arbitrary: pre rule: length_induct)
  case (1 s)
  have q: "q \<noteq> []" using assms(5) by auto
  show ?case
  proof (cases s)
    case Nil
    with 1 show ?thesis by simp
  next
    case (Cons c cs)
    show ?thesis
    proof (cases "p \<noteq> [] \<and> prefix p (c # cs)")
      case True
      let ?rest = "drop (length p) (c # cs)"
      from True have "length ?rest < length s" by (simp add: Cons)
      moreover have "\<not> sublist q ?rest"
      proof
        assume "sublist q ?rest"
        moreover have "sublist ?rest s" unfolding Cons by (rule sublist_drop)
        ultimately have "sublist q s" by (rule sublist_order.order.trans)
        with 1(2) show False by simp
      qed
      ultimately have "\<not> sublist q (replace_from p R (pre @ p) ?rest)"
        using 1(1) by blast
      with assms have "\<not> sublist q (R @ replace_from p R (pre @ p) ?rest)"
        by (intro no_occurrence_append)
      with True assms(1) show ?thesis by (simp add: Cons GetSubstitution_literal)
    next
      case False
      from 1(2) have a: "\<not> prefix q s" and b: "\<not> sublist q cs"
        by (simp_all add: Cons sublist_Cons_right)
      from b 1(1) have c: "\<not> sublist q (replace_from p R (pre @ [c]) cs)"
        by (simp add: Cons)
      from a have d: "\<not> prefix q (replace_from p R pre s)"
        using replace_from_prefix [OF assms(1,2,3)] by blast
      from False have e: "replace_from p R pre s = c # replace_from p R (pre @ [c]) cs"
        by (auto simp: Cons)
      show ?thesis
        unfolding e sublist_Cons_right using c d e by simp
    qed
  qed
qed

subsection \<open>What the sanitizer does to an occurrence\<close>

lemma word_char_not_special:
  \<open>word_char c \<Longrightarrow> c \<notin> set (CHR 0x5C # ''^$.*+?()[]{}|:;&<>"'' @ [CHR 0x27])\<close>
  by (auto simp: word_char_def ascii_between_def)

lemma word_char_plain:
  "word_char c \<Longrightarrow> \<not> syntax_char c \<and> html_entity c = [c] \<and> c \<noteq> CHR '':'' \<and> c \<noteq> CHR '';''
     \<and> c \<noteq> CHR ''&'' \<and> c \<noteq> CHR ''<'' \<and> c \<noteq> CHR ''>'' \<and> c \<noteq> CHR ''$''"
  using word_char_not_special [of c] unfolding syntax_char_def html_entity_def by auto

lemma escapeHtml_word: "list_all word_char s \<Longrightarrow> escapeHtml s = s"
  by (induction s) (simp_all add: escapeHtml_Nil escapeHtml_Cons word_char_plain)

lemma html_entity_chars:
  "c \<in> set (html_entity d) \<Longrightarrow> c = d \<or> c \<in> set ''&amp;lt;gt;quot;#039;''"
  by (auto simp: html_entity_def split: if_splits)

lemma escapeHtml_chars:
  "c \<in> set (escapeHtml u) \<Longrightarrow> c \<in> set u \<or> c \<in> set ''&amp;lt;gt;quot;#039;''"
  unfolding escapeHtml_concat_map using html_entity_chars by fastforce

lemma escapeHtml_no_dollar: "CHR ''$'' \<notin> set u \<Longrightarrow> CHR ''$'' \<notin> set (escapeHtml u)"
  using escapeHtml_chars [of "CHR ''$''" u] by auto

lemma escapeHtml_no_colon: "CHR '':'' \<notin> set u \<Longrightarrow> CHR '':'' \<notin> set (escapeHtml u)"
  using escapeHtml_chars [of "CHR '':''" u] by auto

lemma escapeHtml_prefix:
  "CHR ''&'' \<notin> set X \<Longrightarrow> prefix X (escapeHtml u) \<Longrightarrow> prefix X u"
proof (induction u arbitrary: X)
  case Nil
  then show ?case by (simp add: escapeHtml_Nil)
next
  case (Cons a u)
  show ?case
  proof (cases X)
    case Nil
    then show ?thesis by simp
  next
    case X: (Cons x X')
    show ?thesis
    proof (cases "html_entity a = [a]")
      case True
      with Cons.prems X have "x = a" "prefix X' (escapeHtml u)" "CHR ''&'' \<notin> set X'"
        by (simp_all add: escapeHtml_Cons)
      with Cons.IH [of X'] X show ?thesis by simp
    next
      case False
      then have "hd (html_entity a) = CHR ''&''" "html_entity a \<noteq> []"
        by (auto simp: html_entity_def split: if_splits)
      with Cons.prems X have "x = CHR ''&''"
        by (cases "html_entity a") (simp_all add: escapeHtml_Cons)
      with Cons.prems(1) X show ?thesis by simp
    qed
  qed
qed

lemma entity_last:
  "html_entity a \<noteq> [a] \<Longrightarrow> last (html_entity a) = CHR '';'' \<and> CHR '':'' \<notin> set (html_entity a)"
  by (auto simp: html_entity_def split: if_splits)

lemma escapeHtml_sublist:
  assumes "CHR ''&'' \<notin> set P" "CHR '';'' \<notin> set P" "CHR '':'' \<in> set P" "2 \<le> length P"
  shows "sublist P (escapeHtml u) \<Longrightarrow> sublist P u"
proof (induction u)
  case Nil
  then show ?case by (simp add: escapeHtml_Nil)
next
  case (Cons a u)
  from Cons.prems have "sublist P (html_entity a @ escapeHtml u)"
    by (simp add: escapeHtml_Cons)
  then show ?case
  proof (cases rule: sublist_append_cases)
    case 1
    show ?thesis
    proof (cases "html_entity a = [a]")
      case True
      with 1 assms(4) show ?thesis using sublist_length_le [of P "[a]"] by simp
    next
      case False
      with 1 assms(3) show ?thesis
        using set_mono_sublist [of P "html_entity a"] entity_last [of a] by blast
    qed
  next
    case 2
    with Cons.IH show ?thesis by (simp add: sublist_Cons_right)
  next
    case (3 q1 q2)
    show ?thesis
    proof (cases "html_entity a = [a]")
      case True
      with 3 have "q1 = [a]" by (cases q1) (auto simp: suffix_Cons)
      moreover from 3 assms(1) have "prefix q2 u"
        using escapeHtml_prefix [of q2 u] by auto
      ultimately have "prefix P (a # u)" using 3(1) by simp
      then show ?thesis by (simp add: sublist_Cons_right)
    next
      case False
      with 3 have "CHR '';'' \<in> set q1"
        using suffix_last_mem [of q1 "html_entity a"] entity_last [of a] by auto
      with 3(1) assms(2) show ?thesis by simp
    qed
  qed
qed

lemma colon_bounded_left:
  assumes "sublist (CHR '':'' # m) (X @ Y)" "CHR '':'' \<notin> set X"
  shows "sublist (CHR '':'' # m) Y"
  using assms(1)
proof (cases rule: sublist_append_cases)
  case 1
  with assms(2) show ?thesis using set_mono_sublist [of "CHR '':'' # m" X] by auto
next
  case 2
  then show ?thesis .
next
  case (3 q1 q2)
  then have "hd q1 = CHR '':''" by (cases q1) auto
  with 3 have "CHR '':'' \<in> set X"
    using set_mono_sublist [of q1 X] hd_in_set [of q1] by (auto dest: suffix_imp_sublist)
  with assms(2) show ?thesis by simp
qed

lemma colon_bounded_right:
  assumes "sublist (m @ '':'') (X @ Y)" "CHR '':'' \<notin> set Y"
  shows "sublist (m @ '':'') X"
  using assms(1)
proof (cases rule: sublist_append_cases)
  case 1
  then show ?thesis .
next
  case 2
  with assms(2) show ?thesis using set_mono_sublist [of "m @ '':''" Y] by auto
next
  case (3 q1 q2)
  then have "last q2 = CHR '':''" by (metis last_appendR last_snoc)
  with 3 have "CHR '':'' \<in> set Y"
    using set_mono_sublist [of q2 Y] last_in_set [of q2] by (auto dest: prefix_imp_sublist)
  with assms(2) show ?thesis by simp
qed

subsection \<open>The passes of emojify\<close>

lemma emoji_img_shape:
  "emoji_img u s \<noteq> [] \<and> hd (emoji_img u s) = CHR ''<'' \<and> last (emoji_img u s) = CHR ''>''"
  by (simp add: emoji_img_def)

lemma word_char_facts:
  assumes "word_char c"
  shows "\<not> syntax_char c" "c \<noteq> CHR '':''" "c \<noteq> CHR '';''" "c \<noteq> CHR ''&''"
    "c \<noteq> CHR ''<''" "c \<noteq> CHR ''>''" "c \<noteq> CHR ''$''"
  using word_char_plain [OF assms] by simp_all

lemma word_no_colon: "list_all word_char s \<Longrightarrow> CHR '':'' \<notin> set s"
  using word_char_facts(2) [of "CHR '':''"] by (auto simp: list_all_iff)

lemma word_no_dollar: "list_all word_char s \<Longrightarrow> CHR ''$'' \<notin> set s"
  using word_char_facts(7) [of "CHR ''$''"] by (auto simp: list_all_iff)

lemma pattern_member:
  "list_all word_char s \<Longrightarrow> d \<in> set ('':'' @ s @ '':'') \<Longrightarrow> d = CHR '':'' \<or> word_char d"
  by (auto simp: list_all_iff)

lemma pattern_chars:
  assumes "list_all word_char s"
  shows "CHR ''&'' \<notin> set ('':'' @ s @ '':'')" "CHR '';'' \<notin> set ('':'' @ s @ '':'')"
    "CHR ''<'' \<notin> set ('':'' @ s @ '':'')" "CHR ''>'' \<notin> set ('':'' @ s @ '':'')"
    "\<not> list_ex syntax_char ('':'' @ s @ '':'')"
proof -
  show "CHR ''&'' \<notin> set ('':'' @ s @ '':'')"
    using pattern_member [OF assms, of "CHR ''&''"] word_char_facts(4) [of "CHR ''&''"] by blast
  show "CHR '';'' \<notin> set ('':'' @ s @ '':'')"
    using pattern_member [OF assms, of "CHR '';''"] word_char_facts(3) [of "CHR '';''"] by blast
  show "CHR ''<'' \<notin> set ('':'' @ s @ '':'')"
    using pattern_member [OF assms, of "CHR ''<''"] word_char_facts(5) [of "CHR ''<''"] by blast
  show "CHR ''>'' \<notin> set ('':'' @ s @ '':'')"
    using pattern_member [OF assms, of "CHR ''>''"] word_char_facts(6) [of "CHR ''>''"] by blast
  have "\<not> syntax_char (CHR '':'')" by (simp add: syntax_char_def)
  then show "\<not> list_ex syntax_char ('':'' @ s @ '':'')"
    unfolding list_ex_iff using pattern_member [OF assms] word_char_facts(1) by blast
qed

lemma plain_pair_D:
  assumes "plain_pair s e"
  obtains sc u where "shortcode e = Some sc" "emoji_url e = Some u" "list_all word_char sc"
    "CHR ''$'' \<notin> set u" "\<not> sublist ('':'' @ s @ '':'') u"
  using assms by (auto simp: plain_pair_def split: option.splits)

lemma emoji_img_no_dollar:
  "CHR ''$'' \<notin> set u \<Longrightarrow> list_all word_char sc \<Longrightarrow>
     CHR ''$'' \<notin> set (emoji_img (escapeHtml u) sc)"
  using escapeHtml_no_dollar [of u] word_no_dollar [of sc] by (simp add: emoji_img_def)

lemma emoji_img_no_occurrence:
  assumes "list_all word_char s" "list_all word_char sc" "\<not> sublist ('':'' @ s @ '':'') u"
  shows "\<not> sublist ('':'' @ s @ '':'') (emoji_img (escapeHtml u) sc)"
proof
  let ?P = "CHR '':'' # s @ '':''"
  assume "sublist ('':'' @ s @ '':'') (emoji_img (escapeHtml u) sc)"
  then have \<open>sublist ?P (''<img src="'' @ (escapeHtml u
      @ (''" alt="'' @ sc @ ''" class="emoji" loading="lazy" />'')))\<close>
    by (simp add: emoji_img_def)
  then have \<open>sublist ?P (escapeHtml u
      @ (''" alt="'' @ sc @ ''" class="emoji" loading="lazy" />''))\<close>
    by (rule colon_bounded_left) simp
  moreover have \<open>CHR '':'' \<notin> set (''" alt="'' @ sc @ ''" class="emoji" loading="lazy" />'')\<close>
    using word_no_colon [OF assms(2)] by simp
  ultimately have "sublist ((CHR '':'' # s) @ '':'') (escapeHtml u)"
    using colon_bounded_right [of "CHR '':'' # s"] by simp
  then have "sublist ('':'' @ s @ '':'') u"
    using escapeHtml_sublist [of "'':'' @ s @ '':''" u] pattern_chars(1,2) [OF assms(1)]
    by simp
  with assms(3) show False by simp
qed

lemma RegExp_replace_word:
  "list_all word_char s \<Longrightarrow>
     RegExp_replace pf ('':'' @ s @ '':'') tpl str = Inr (replace_global ('':'' @ s @ '':'') tpl str)"
  using pattern_chars(5) [of s] by (simp add: RegExp_replace_def)

lemma emojify_step_word:
  "shortcode e = Some sc \<Longrightarrow> emoji_url e = Some u \<Longrightarrow> list_all word_char sc \<Longrightarrow>
     emojify_step pf e str
       = Inr (replace_global ('':'' @ sc @ '':'') (emoji_img (escapeHtml u) sc) str)"
  using RegExp_replace_word [of sc pf "emoji_img (escapeHtml u) sc" str]
  by (simp add: emojify_step_def escapeHtml_word)

lemma emojify_step_consumes:
  assumes "plain_pair s e" "shortcode e = Some s"
  shows "\<exists>str'. emojify_step pf e str = Inr str' \<and> \<not> sublist ('':'' @ s @ '':'') str'"
proof -
  from assms obtain u where u: "emoji_url e = Some u" and w: "list_all word_char s"
    and d: "CHR ''$'' \<notin> set u" and n: "\<not> sublist ('':'' @ s @ '':'') u"
    by (auto elim!: plain_pair_D)
  let ?R = "emoji_img (escapeHtml u) s"
  have "\<not> sublist ('':'' @ s @ '':'') (replace_from ('':'' @ s @ '':'') ?R [] str)"
    using emoji_img_no_dollar [OF d w] emoji_img_shape [of "escapeHtml u" s]
      pattern_chars(3,4) [OF w] emoji_img_no_occurrence [OF w w n]
    by (intro replace_from_consumes) simp_all
  then show ?thesis
    using emojify_step_word [OF assms(2) u w, of pf str] by (simp add: replace_global_def)
qed

lemma emojify_step_preserves:
  assumes "plain_pair s e" "list_all word_char s" "\<not> sublist ('':'' @ s @ '':'') str"
  shows "\<exists>str'. emojify_step pf e str = Inr str' \<and> \<not> sublist ('':'' @ s @ '':'') str'"
proof -
  from assms(1) obtain sc u where sc: "shortcode e = Some sc" and u: "emoji_url e = Some u"
    and w: "list_all word_char sc" and d: "CHR ''$'' \<notin> set u"
    and n: "\<not> sublist ('':'' @ s @ '':'') u"
    by (rule plain_pair_D)
  let ?R = "emoji_img (escapeHtml u) sc"
  have "\<not> sublist ('':'' @ s @ '':'') (replace_from ('':'' @ sc @ '':'') ?R [] str)"
    using emoji_img_no_dollar [OF d w] emoji_img_shape [of "escapeHtml u" sc]
      pattern_chars(3,4) [OF assms(2)] emoji_img_no_occurrence [OF assms(2) w n] assms(3)
    by (intro replace_from_preserves) simp_all
  then show ?thesis
    using emojify_step_word [OF sc u w, of pf str] by (simp add: replace_global_def)
qed

lemma emojify_step_idle:
  assumes "shortcode e = Some s" "emoji_url e = Some u" "list_all word_char s"
    "\<not> sublist ('':'' @ s @ '':'') str"
  shows "emojify_step pf e str = Inr str"
  using assms(4) emojify_step_word [OF assms(1,2,3), of pf str]
  by (simp add: replace_global_def replace_from_no_match)

lemma emojify_forEach_append:
  "emojify_forEach pf (es @ es') str =
     (case emojify_forEach pf es str of Inl e \<Rightarrow> Inl e | Inr s \<Rightarrow> emojify_forEach pf es' s)"
  by (induction es arbitrary: str) (simp_all split: sum.splits)

lemma emojify_forEach_eq: "emojify pf str (Some es) = emojify_forEach pf es str"
  by (cases es) (simp_all add: emojify_def)

lemma emojify_forEach_preserves:
  assumes "list_all word_char s"
  shows "list_all (plain_pair s) ys \<Longrightarrow> \<not> sublist ('':'' @ s @ '':'') str \<Longrightarrow>
     \<exists>str'. emojify_forEach pf ys str = Inr str' \<and> \<not> sublist ('':'' @ s @ '':'') str'"
proof (induction ys arbitrary: str)
  case Nil
  then show ?case by simp
next
  case (Cons y ys)
  from Cons.prems(1) have y: "plain_pair s y" and ys: "list_all (plain_pair s) ys" by simp_all
  from emojify_step_preserves [OF y assms Cons.prems(2), of pf]
  obtain str1 where s1: "emojify_step pf y str = Inr str1" "\<not> sublist ('':'' @ s @ '':'') str1"
    by blast
  from Cons.IH [OF ys s1(2)] s1(1) show ?case by simp
qed

lemma second_pass_idle:
  assumes "shortcode e1 = Some s" "shortcode e2 = Some s" "emoji_url e2 \<noteq> None"
    "list_all (plain_pair s) (e1 # ys)"
  shows "emojify_forEach pf (e1 # ys @ e2 # zs) str = emojify_forEach pf (e1 # ys @ zs) str"
proof -
  from assms(4) have e1: "plain_pair s e1" and ys: "list_all (plain_pair s) ys" by simp_all
  from e1 assms(1) have w: "list_all word_char s" by (auto elim!: plain_pair_D)
  from assms(3) obtain u2 where u2: "emoji_url e2 = Some u2" by auto
  from emojify_step_consumes [OF e1 assms(1), of pf str]
  obtain s1 where s1: "emojify_step pf e1 str = Inr s1" "\<not> sublist ('':'' @ s @ '':'') s1"
    by blast
  from emojify_forEach_preserves [OF w ys s1(2), of pf]
  obtain s2 where s2: "emojify_forEach pf ys s1 = Inr s2" "\<not> sublist ('':'' @ s @ '':'') s2"
    by blast
  have "emojify_step pf e2 s2 = Inr s2"
    using emojify_step_idle [OF assms(2) u2 w s2(2)] .
  then have "emojify_forEach pf (ys @ e2 # zs) s1 = emojify_forEach pf (ys @ zs) s1"
    using s2(1) by (simp add: emojify_forEach_append)
  then show ?thesis using s1(1) by simp
qed

text \<open>
  Claim C7, as amended. The pairs are applied one after the other in the collection's
  order: substituting with \<open>es @ es'\<close> is substituting with \<open>es\<close> and then, in the result,
  with \<open>es'\<close>. When a shortcode \<open>s\<close> occurs twice (in \<open>e1\<close> and, after the pairs \<open>ys\<close>, in
  \<open>e2\<close>), the second pass changes nothing, and the output is that of the collection without
  \<open>e2\<close>, provided that from \<open>e1\<close> up to \<open>e2\<close> the shortcodes are made of letters, digits and
  underscores, the URLs have no dollar sign and do not contain the text \<^verbatim>\<open>:s:\<close>, and the
  URL of \<open>e2\<close> is not null. As the claim is stated it fails: a URL that contains \<^verbatim>\<open>:s:\<close>
  brings the text back into the content, and the second pass replaces it there.
\<close>

theorem duplicate_shortcode:
  "emojify pf str (Some (es @ es')) =
     (case emojify pf str (Some es) of Inl e \<Rightarrow> Inl e | Inr s \<Rightarrow> emojify pf s (Some es')) \<and>
   (shortcode e1 = Some s \<and> shortcode e2 = Some s \<and> emoji_url e2 \<noteq> None \<and>
    list_all (plain_pair s) (e1 # ys) \<longrightarrow>
      emojify pf str (Some (xs @ e1 # ys @ e2 # zs)) = emojify pf str (Some (xs @ e1 # ys @ zs)))"
proof (intro conjI impI)
  show "emojify pf str (Some (es @ es')) =
     (case emojify pf str (Some es) of Inl e \<Rightarrow> Inl e | Inr s \<Rightarrow> emojify pf s (Some es'))"
    by (simp only: emojify_forEach_eq emojify_forEach_append)
next
  assume "shortcode e1 = Some s \<and> shortcode e2 = Some s \<and> emoji_url e2 \<noteq> None \<and>
    list_all (plain_pair s) (e1 # ys)"
  then have "emojify_forEach pf (e1 # ys @ e2 # zs) t = emojify_forEach pf (e1 # ys @ zs) t" for t
    using second_pass_idle by blast
  then show "emojify pf str (Some (xs @ e1 # ys @ e2 # zs)) = emojify pf str (Some (xs @ e1 # ys @ zs))"
    by (simp only: emojify_forEach_eq emojify_forEach_append [of pf xs])
qed

lemmas emojify_eval =
  emojify_def emojify_step_def RegExp_replace_def replace_global_def syntax_char_def
  emoji_img_def escapeHtml_concat_map html_entity_def Let_def

text \<open>
  Claim C6. An absent or empty collection returns the content unchanged, and the example
  of the specification comes out as it says. But the image element is handed to
  \<^verbatim>\<open>String.prototype.replace\<close> as a replacement template, in which \<^verbatim>\<open>$&\<close> stands for
  the matched text: for the URL \<^verbatim>\<open>https://x/w.png?a=1$&b=2\<close> the element's
  \<^verbatim>\<open>src\<close> is not the sanitized URL \<^verbatim>\<open>https://x/w.png?a=1$&amp;b=2\<close>, and the text
  \<^verbatim>\<open>:wave:\<close> is still in the output.
\<close>

theorem emojify_dollar_in_url:
  \<open>emojify pf str None = Inr str \<and> emojify pf str (Some []) = Inr str \<and>
   emojify pf ''Hi :wave: there''
       (Some [\<lparr>shortcode = Some ''wave'', emoji_url = Some ''https://x/w.png''\<rparr>])
     = Inr ''Hi <img src="https://x/w.png" alt="wave" class="emoji" loading="lazy" /> there'' \<and>
   escapeHtml ''https://x/w.png?a=1$&b=2'' = ''https://x/w.png?a=1$&amp;b=2'' \<and>
   emojify pf ''Hi :wave: there''
       (Some [\<lparr>shortcode = Some ''wave'', emoji_url = Some ''https://x/w.png?a=1$&b=2''\<rparr>])
     = Inr ''Hi <img src="https://x/w.png?a=1:wave:amp;b=2" alt="wave" class="emoji" loading="lazy" /> there''\<close>
  by (simp add: emojify_eval)

theorem emojify_dollar_in_url_witness:
  \<open>emojify test_platform ''Hi :wave: there''
       (Some [\<lparr>shortcode = Some ''wave'', emoji_url = Some ''https://x/w.png?a=1$&b=2''\<rparr>])
     = Inr ''Hi <img src="https://x/w.png?a=1:wave:amp;b=2" alt="wave" class="emoji" loading="lazy" /> there'' \<and>
   sublist '':wave:'' ''Hi <img src="https://x/w.png?a=1:wave:amp;b=2" alt="wave" class="emoji" loading="lazy" /> there'' \<and>
   \<not> sublist ''src="https://x/w.png?a=1$&amp;b=2"'' ''Hi <img src="https://x/w.png?a=1:wave:amp;b=2" alt="wave" class="emoji" loading="lazy" /> there''\<close>
  using emojify_dollar_in_url [of test_platform "[]"]
  by (simp add: sublist_Cons_right)

theorem duplicate_shortcode_counterexample:
  \<open>emojify test_platform '':a:''
       (Some [\<lparr>shortcode = Some ''a'', emoji_url = Some ''https://x/:a:.png''\<rparr>,
              \<lparr>shortcode = Some ''a'', emoji_url = Some ''https://x/2.png''\<rparr>])
     \<noteq> emojify test_platform '':a:''
       (Some [\<lparr>shortcode = Some ''a'', emoji_url = Some ''https://x/:a:.png''\<rparr>])\<close>
  by (simp add: emojify_eval)

theorem duplicate_shortcode_witness:
  \<open>emojify test_platform ''Hi :wave: :smile: :wave:''
       (Some [\<lparr>shortcode = Some ''wave'', emoji_url = Some ''https://x/w.png''\<rparr>,
              \<lparr>shortcode = Some ''smile'', emoji_url = Some ''https://x/s.png''\<rparr>,
              \<lparr>shortcode = Some ''wave'', emoji_url = Some ''https://x/w2.png''\<rparr>])
     = emojify test_platform ''Hi :wave: :smile: :wave:''
       (Some [\<lparr>shortcode = Some ''wave'', emoji_url = Some ''https://x/w.png''\<rparr>,
              \<lparr>shortcode = Some ''smile'', emoji_url = Some ''https://x/s.png''\<rparr>]) \<and>
   list_all (plain_pair ''wave'')
     [\<lparr>shortcode = Some ''wave'', emoji_url = Some ''https://x/w.png''\<rparr>,
      \<lparr>shortcode = Some ''smile'', emoji_url = Some ''https://x/s.png''\<rparr>] \<and>
   emojify test_platform ''Hi :wave: :smile: :wave:''
       (Some [\<lparr>shortcode = Some ''wave'', emoji_url = Some ''https://x/w.png''\<rparr>,
              \<lparr>shortcode = Some ''smile'', emoji_url = Some ''https://x/s.png''\<rparr>])
     = Inr ''Hi <img src="https://x/w.png" alt="wave" class="emoji" loading="lazy" /> <img src="https://x/s.png" alt="smile" class="emoji" loading="lazy" /> <img src="https://x/w.png" alt="wave" class="emoji" loading="lazy" />''\<close>
proof -
  have p: \<open>list_all (plain_pair ''wave'')
     [\<lparr>shortcode = Some ''wave'', emoji_url = Some ''https://x/w.png''\<rparr>,
      \<lparr>shortcode = Some ''smile'', emoji_url = Some ''https://x/s.png''\<rparr>]\<close>
    by (simp add: plain_pair_def word_char_def ascii_between_def sublist_Cons_right)
  have v: \<open>emojify test_platform ''Hi :wave: :smile: :wave:''
       (Some [\<lparr>shortcode = Some ''wave'', emoji_url = Some ''https://x/w.png''\<rparr>,
              \<lparr>shortcode = Some ''smile'', emoji_url = Some ''https://x/s.png''\<rparr>])
     = Inr ''Hi <img src="https://x/w.png" alt="wave" class="emoji" loading="lazy" /> <img src="https://x/s.png" alt="smile" class="emoji" loading="lazy" /> <img src="https://x/w.png" alt="wave" class="emoji" loading="lazy" />''\<close>
    by (simp add: emojify_eval)
  from p v duplicate_shortcode [where ?e1.0 = \<open>\<lparr>shortcode = Some ''wave'', emoji_url = Some ''https://x/w.png''\<rparr>\<close>
      and ?e2.0 = \<open>\<lparr>shortcode = Some ''wave'', emoji_url = Some ''https://x/w2.png''\<rparr>\<close>
      and ys = \<open>[\<lparr>shortcode = Some ''smile'', emoji_url = Some ''https://x/s.png''\<rparr>]\<close>
      and s = \<open>''wave''\<close>
      and xs = "[]" and zs = "[]" and pf = test_platform and str = \<open>''Hi :wave: :smile: :wave:''\<close>]
  show ?thesis by simp
qed

section \<open>The sanitization invariant\<close>

lemma count_escapeHtml: "markup_char ch \<Longrightarrow> count_list (escapeHtml s) ch = 0"
  using escapeHtml_no_markup [of ch s] by (auto simp: count_list_0_iff)

lemma comment_template_count:
  "count_list (comment_template a d u n cu ts b att) ch =
     count_list (comment_template [] [] [] [] [] [] [] []) ch
     + count_list a ch + 2 * count_list d ch + 2 * count_list u ch + count_list n ch
     + count_list cu ch + count_list ts ch + count_list b ch + count_list att ch"
  unfolding comment_template_def
  by (simp only: count_list_append append_Nil)

lemma comment_template_sanitized:
  assumes "markup_char ch"
  shows "count_list (comment_template (escapeHtml a) (escapeHtml d) (escapeHtml u) (escapeHtml n)
            (escapeHtml cu) ts b att) ch =
         count_list (comment_template [] [] [] [] [] [] [] []) ch
           + count_list ts ch + count_list b ch + count_list att ch"
  by (simp only: comment_template_count [of "escapeHtml a"] count_escapeHtml [OF assms])

lemma emoji_img_count:
  "markup_char ch \<Longrightarrow>
     count_list (emoji_img (escapeHtml u) (escapeHtml s)) ch = count_list (emoji_img [] []) ch"
  unfolding emoji_img_def
  by (simp only: count_list_append count_escapeHtml append_Nil count_list.simps(1))

lemma default_type_count:
  "markup_char ch \<Longrightarrow> count_list (js_or (Some (escapeHtml x)) ''video/mp4'') ch = 0"
  "markup_char ch \<Longrightarrow> count_list (js_or (Some (escapeHtml x)) ''audio/mpeg'') ch = 0"
  using count_escapeHtml [of ch x]
  by (auto simp: js_or_def markup_char_def)

lemma render_media_forms:
  assumes "media_url m = Some u" "preview_url m = Some p"
  shows
  \<open>media_type m = ''image'' \<Longrightarrow> render_media m = Inr
     (''<a href="'' @ escapeHtml u
      @ ''" target="_blank" rel="noopener noreferrer">\<newline>                    <img src="''
      @ escapeHtml p @ ''" alt="'' @ escapeHtml (js_or (description m) ''Image'')
      @ ''" loading="lazy" />\<newline>                </a>'')\<close>
  \<open>media_type m = ''video'' \<or> media_type m = ''gifv'' \<Longrightarrow> render_media m = Inr
     (''<video controls preload="metadata" poster="'' @ escapeHtml p
      @ ''">\<newline>                    <source src="'' @ escapeHtml u
      @ ''" type="'' @ js_or (Some (escapeHtml (js_or (mime_type m) []))) ''video/mp4''
      @ ''">\<newline>                </video>'')\<close>
  \<open>media_type m = ''audio'' \<Longrightarrow> render_media m = Inr
     (''<audio controls preload="metadata">\<newline>                    <source src="''
      @ escapeHtml u @ ''" type="''
      @ js_or (Some (escapeHtml (js_or (mime_type m) []))) ''audio/mpeg''
      @ ''">\<newline>                </audio>'')\<close>
  \<open>\<not> known_kind m \<Longrightarrow> render_media m = Inr []\<close>
  using assms by (auto simp: render_media_def Let_def known_kind_def)

lemma render_media_Inr_D:
  "render_media m = Inr x \<Longrightarrow> \<exists>u p. media_url m = Some u \<and> preview_url m = Some p"
  by (cases "media_url m"; cases "preview_url m") (simp_all add: render_media_def)

lemma render_media_count:
  assumes "markup_char ch" "media_type m = media_type m'"
    and "render_media m = Inr x" "render_media m' = Inr x'"
  shows "count_list x ch = count_list x' ch"
proof -
  from assms(3) obtain u p where m: "media_url m = Some u" "preview_url m = Some p"
    using render_media_Inr_D by blast
  from assms(4) obtain u' p' where m': "media_url m' = Some u'" "preview_url m' = Some p'"
    using render_media_Inr_D by blast
  note f = render_media_forms [OF m] and f' = render_media_forms [OF m']
  consider "media_type m = ''image''" | "media_type m = ''video'' \<or> media_type m = ''gifv''"
    | "media_type m = ''audio''" | "\<not> known_kind m"
    by (auto simp: known_kind_def)
  then show ?thesis
  proof cases
    case 1
    then have 2: "media_type m' = ''image''" using assms(2) by simp
    from f(1) [OF 1] f'(1) [OF 2] assms(3,4) have
      x: \<open>x = ''<a href="'' @ escapeHtml u
      @ ''" target="_blank" rel="noopener noreferrer">\<newline>                    <img src="''
      @ escapeHtml p @ ''" alt="'' @ escapeHtml (js_or (description m) ''Image'')
      @ ''" loading="lazy" />\<newline>                </a>''\<close>
      and x': \<open>x' = ''<a href="'' @ escapeHtml u'
      @ ''" target="_blank" rel="noopener noreferrer">\<newline>                    <img src="''
      @ escapeHtml p' @ ''" alt="'' @ escapeHtml (js_or (description m') ''Image'')
      @ ''" loading="lazy" />\<newline>                </a>''\<close>
      by simp_all
    show ?thesis unfolding x x'
      by (simp only: count_list_append count_escapeHtml [OF assms(1)])
  next
    case 2
    then have 3: "media_type m' = ''video'' \<or> media_type m' = ''gifv''" using assms(2) by simp
    from f(2) [OF 2] f'(2) [OF 3] assms(3,4) have
      x: \<open>x = ''<video controls preload="metadata" poster="'' @ escapeHtml p
      @ ''">\<newline>                    <source src="'' @ escapeHtml u
      @ ''" type="'' @ js_or (Some (escapeHtml (js_or (mime_type m) []))) ''video/mp4''
      @ ''">\<newline>                </video>''\<close>
      and x': \<open>x' = ''<video controls preload="metadata" poster="'' @ escapeHtml p'
      @ ''">\<newline>                    <source src="'' @ escapeHtml u'
      @ ''" type="'' @ js_or (Some (escapeHtml (js_or (mime_type m') []))) ''video/mp4''
      @ ''">\<newline>                </video>''\<close>
      by simp_all
    show ?thesis unfolding x x'
      by (simp only: count_list_append count_escapeHtml [OF assms(1)]
            default_type_count [OF assms(1)])
  next
    case 3
    then have 4: "media_type m' = ''audio''" using assms(2) by simp
    from f(3) [OF 3] f'(3) [OF 4] assms(3,4) have
      x: \<open>x = ''<audio controls preload="metadata">\<newline>                    <source src="''
      @ escapeHtml u @ ''" type="''
      @ js_or (Some (escapeHtml (js_or (mime_type m) []))) ''audio/mpeg''
      @ ''">\<newline>                </audio>''\<close>
      and x': \<open>x' = ''<audio controls preload="metadata">\<newline>                    <source src="''
      @ escapeHtml u' @ ''" type="''
      @ js_or (Some (escapeHtml (js_or (mime_type m') []))) ''audio/mpeg''
      @ ''">\<newline>                </audio>''\<close>
      by simp_all
    show ?thesis unfolding x x'
      by (simp only: count_list_append count_escapeHtml [OF assms(1)]
            default_type_count [OF assms(1)])
  next
    case 4
    then have "\<not> known_kind m'" using assms(2) by (simp add: known_kind_def)
    with 4 f(4) f'(4) assms(3,4) show ?thesis by simp
  qed
qed

lemma media_forEach_count:
  assumes "markup_char ch"
  shows "map media_type ms = map media_type ms' \<Longrightarrow>
     media_forEach ms html = Inr out \<Longrightarrow> media_forEach ms' html' = Inr out' \<Longrightarrow>
     count_list html ch = count_list html' ch \<Longrightarrow> count_list out ch = count_list out' ch"
proof (induction ms arbitrary: ms' html html')
  case Nil
  then show ?case by simp
next
  case (Cons m ms)
  from Cons.prems(1) obtain m' ms'' where ms': "ms' = m' # ms''"
    "media_type m = media_type m'" "map media_type ms = map media_type ms''"
    by (cases ms') auto
  from Cons.prems(2) obtain x where x: "render_media m = Inr x"
    "media_forEach ms (html @ x) = Inr out"
    by (auto split: sum.splits)
  from Cons.prems(3) ms'(1) obtain x' where x': "render_media m' = Inr x'"
    "media_forEach ms'' (html' @ x') = Inr out'"
    by (auto split: sum.splits)
  have "count_list (html @ x) ch = count_list (html' @ x') ch"
    using Cons.prems(4) render_media_count [OF assms ms'(2) x(1) x'(1)] by simp
  with Cons.IH [OF ms'(3) x(2) x'(2)] show ?case .
qed

lemma attachmentsHtml_count:
  assumes "markup_char ch"
    and "map_option (map media_type) (media_attachments c)
           = map_option (map media_type) (media_attachments c')"
    and "attachmentsHtml c = Inr a" "attachmentsHtml c' = Inr a'"
  shows "count_list a ch = count_list a' ch"
proof (cases "media_attachments c")
  case None
  with assms(2) have "media_attachments c' = None" by simp
  with None assms(3,4) show ?thesis by (simp add: attachmentsHtml_def)
next
  case (Some ms)
  with assms(2) obtain ms' where ms': "media_attachments c' = Some ms'"
    "map media_type ms = map media_type ms'"
    by (cases "media_attachments c'") auto
  then have len: "length ms = length ms'" using map_eq_imp_length_eq by blast
  show ?thesis
  proof (cases "ms = []")
    case True
    with len Some ms' assms(3,4) show ?thesis by (simp add: attachmentsHtml_def)
  next
    case False
    with len have ne: "ms' \<noteq> []" by auto
    from False Some assms(3) obtain h where
      h: \<open>media_forEach ms ''<div class="mastodon-attachments">'' = Inr h\<close> \<open>a = h @ ''</div>''\<close>
      by (auto simp: attachmentsHtml_def and_then_eq_Inr)
    from ne ms'(1) assms(4) obtain h' where
      h': \<open>media_forEach ms' ''<div class="mastodon-attachments">'' = Inr h'\<close> \<open>a' = h' @ ''</div>''\<close>
      by (auto simp: attachmentsHtml_def and_then_eq_Inr)
    from media_forEach_count [OF assms(1) ms'(2) h(1) h'(1)]
    have "count_list h ch = count_list h' ch" by simp
    then show ?thesis unfolding h(2) h'(2) by (simp only: count_list_append)
  qed
qed

lemma renderComment_structure:
  "renderComment pf c lang = Inr out \<longleftrightarrow>
     (\<exists>name handle profile picture permalink body ts att.
        js_or_null (display_name (account c)) (username (account c)) = Some name \<and>
        username (account c) = Some handle \<and> account_url (account c) = Some profile \<and>
        avatar (account c) = Some picture \<and> comment_url c = Some permalink \<and>
        emojify pf (content c) (emojis c) = Inr body \<and>
        formatDate pf (created_at c) lang = Inr ts \<and>
        attachmentsHtml c = Inr att \<and>
        out = comment_template (escapeHtml picture) (escapeHtml name) (escapeHtml profile)
                (escapeHtml handle) (escapeHtml permalink) ts body att)"
proof
  assume "renderComment pf c lang = Inr out"
  then obtain dn un au av body ts cu att where
    1: "escapeHtml_call (js_or_null (display_name (account c)) (username (account c))) = Inr dn"
    and 2: "escapeHtml_call (username (account c)) = Inr un"
    and 3: "escapeHtml_call (account_url (account c)) = Inr au"
    and 4: "escapeHtml_call (avatar (account c)) = Inr av"
    and 5: "emojify pf (content c) (emojis c) = Inr body"
    and 6: "formatDate pf (created_at c) lang = Inr ts"
    and 7: "escapeHtml_call (comment_url c) = Inr cu"
    and 8: "attachmentsHtml c = Inr att"
    and 9: "out = comment_template av dn au un cu ts body att"
    unfolding renderComment_def and_then_eq_Inr by blast
  from 1 obtain name where n: "js_or_null (display_name (account c)) (username (account c)) = Some name"
    "dn = escapeHtml name" unfolding escapeHtml_call_eq_Inr by blast
  from 2 obtain handle where h: "username (account c) = Some handle" "un = escapeHtml handle"
    unfolding escapeHtml_call_eq_Inr by blast
  from 3 obtain profile where p: "account_url (account c) = Some profile" "au = escapeHtml profile"
    unfolding escapeHtml_call_eq_Inr by blast
  from 4 obtain picture where a: "avatar (account c) = Some picture" "av = escapeHtml picture"
    unfolding escapeHtml_call_eq_Inr by blast
  from 7 obtain permalink where l: "comment_url c = Some permalink" "cu = escapeHtml permalink"
    unfolding escapeHtml_call_eq_Inr by blast
  from n h p a l 5 6 8 9 show "\<exists>name handle profile picture permalink body ts att.
        js_or_null (display_name (account c)) (username (account c)) = Some name \<and>
        username (account c) = Some handle \<and> account_url (account c) = Some profile \<and>
        avatar (account c) = Some picture \<and> comment_url c = Some permalink \<and>
        emojify pf (content c) (emojis c) = Inr body \<and>
        formatDate pf (created_at c) lang = Inr ts \<and>
        attachmentsHtml c = Inr att \<and>
        out = comment_template (escapeHtml picture) (escapeHtml name) (escapeHtml profile)
                (escapeHtml handle) (escapeHtml permalink) ts body att"
    by blast
next
  assume "\<exists>name handle profile picture permalink body ts att.
        js_or_null (display_name (account c)) (username (account c)) = Some name \<and>
        username (account c) = Some handle \<and> account_url (account c) = Some profile \<and>
        avatar (account c) = Some picture \<and> comment_url c = Some permalink \<and>
        emojify pf (content c) (emojis c) = Inr body \<and>
        formatDate pf (created_at c) lang = Inr ts \<and>
        attachmentsHtml c = Inr att \<and>
        out = comment_template (escapeHtml picture) (escapeHtml name) (escapeHtml profile)
                (escapeHtml handle) (escapeHtml permalink) ts body att"
  then obtain name handle profile picture permalink body ts att where
    "js_or_null (display_name (account c)) (username (account c)) = Some name"
    "username (account c) = Some handle" "account_url (account c) = Some profile"
    "avatar (account c) = Some picture" "comment_url c = Some permalink"
    "emojify pf (content c) (emojis c) = Inr body" "formatDate pf (created_at c) lang = Inr ts"
    "attachmentsHtml c = Inr att"
    "out = comment_template (escapeHtml picture) (escapeHtml name) (escapeHtml profile)
                (escapeHtml handle) (escapeHtml permalink) ts body att"
    by blast
  then show "renderComment pf c lang = Inr out"
    by (simp add: renderComment_def)
qed

lemma renderComment_count:
  assumes "markup_char ch" "same_frame c c'"
    and "renderComment pf c lang = Inr out" "renderComment pf c' lang = Inr out'"
  shows "count_list out' ch = count_list out ch"
proof -
  from assms(3) obtain name handle profile picture permalink body ts att where
    b: "emojify pf (content c) (emojis c) = Inr body"
    and t: "formatDate pf (created_at c) lang = Inr ts"
    and a: "attachmentsHtml c = Inr att"
    and out: "out = comment_template (escapeHtml picture) (escapeHtml name) (escapeHtml profile)
                (escapeHtml handle) (escapeHtml permalink) ts body att"
    unfolding renderComment_structure by blast
  from assms(4) obtain name' handle' profile' picture' permalink' body' ts' att' where
    b': "emojify pf (content c') (emojis c') = Inr body'"
    and t': "formatDate pf (created_at c') lang = Inr ts'"
    and a': "attachmentsHtml c' = Inr att'"
    and out': "out' = comment_template (escapeHtml picture') (escapeHtml name')
                (escapeHtml profile') (escapeHtml handle') (escapeHtml permalink') ts' body' att'"
    unfolding renderComment_structure by blast
  from assms(2) b b' t t' have "body' = body" "ts' = ts"
    by (simp_all add: same_frame_def)
  moreover have "count_list att ch = count_list att' ch"
    using attachmentsHtml_count [OF assms(1) _ a a'] assms(2) by (simp add: same_frame_def)
  ultimately show ?thesis
    unfolding out out' by (simp only: comment_template_sanitized [OF assms(1)])
qed

lemma load_innerHTML:
  "comments_innerHTML (loadMastodonComments pf host postId lang w) = comments_innerHTML w"
proof -
  have c: "comments_innerHTML (catch_block e v) = comments_innerHTML v" for e v
    by (simp add: catch_block_def set_list_innerHTML_def Let_def split: option.splits)
  have t: "comments_innerHTML (fst (try_block pf host postId lang w)) = comments_innerHTML w"
    by (simp add: try_block_def set_list_innerHTML_def Let_def
          split: sum.splits context_data.splits option.splits)
  show ?thesis
    using c t
    by (cases "try_block pf host postId lang w")
      (auto simp: loadMastodonComments_def split: option.splits)
qed

lemma initMastodon_innerHTML:
  assumes "comments_div w = Some getAttribute"
    and "\<not> falsy (getAttribute ''data-mastodon-host'')"
    and "\<not> falsy (getAttribute ''data-mastodon-post-id'')"
  shows "comments_innerHTML (initMastodon pf w) =
     commentsHtml (case getAttribute ''data-mastodon-post-url'' of
                     None \<Rightarrow> [] | Some postUrl \<Rightarrow> escapeHtml postUrl)"
  using assms
  by (auto simp: initMastodon_def Let_def load_innerHTML falsy_def js_or_def escapeHtml_Nil
        split: option.splits)

lemma escapeHtml_nonempty: "u \<noteq> [] \<Longrightarrow> escapeHtml u \<noteq> []"
  by (cases u) (auto simp: escapeHtml_Cons html_entity_def)

lemma commentsHtml_count:
  assumes "markup_char ch" "u \<noteq> []" "u' \<noteq> []"
  shows "count_list (commentsHtml (escapeHtml u)) ch = count_list (commentsHtml (escapeHtml u')) ch"
  unfolding commentsHtml_def
  by (simp only: escapeHtml_nonempty [OF assms(2)] escapeHtml_nonempty [OF assms(3)] if_False
        count_list_append count_escapeHtml [OF assms(1)])

text \<open>
  Claim C1. \<^const>\<open>renderComment\<close> returns a fragment exactly when the display name (or,
  in its place, the handle), the handle, the profile URL, the avatar URL and the permalink
  are texts and the emoji step, the date formatter and the attachment loop return; the
  fragment is then the template filled with the sanitized five fields, the timestamp, the
  body as the emoji step left it, and the attachments block. No sanitized field can bring
  one of \<^verbatim>\<open><\<close>, \<^verbatim>\<open>>\<close>, \<^verbatim>\<open>"\<close>, \<^verbatim>\<open>'\<close> into a fragment: two replies with the same body,
  emojis, timestamp and attachment kinds, whatever their author fields, permalinks, media
  URLs, preview URLs, MIME types and descriptions, give fragments with the same number of
  each of these characters. The emoji step hands \<^verbatim>\<open>replace\<close> the image element built from
  the sanitized URL and the sanitized shortcode, whose count of these characters does not
  depend on either. \<^const>\<open>initMastodon\<close> writes the skeleton with the sanitized post URL,
  and the count of these characters in it is the same for every non-empty post URL.
\<close>

theorem sanitization_invariant:
  "(renderComment pf c lang = Inr out \<longleftrightarrow>
     (\<exists>name handle profile picture permalink body ts att.
        js_or_null (display_name (account c)) (username (account c)) = Some name \<and>
        username (account c) = Some handle \<and> account_url (account c) = Some profile \<and>
        avatar (account c) = Some picture \<and> comment_url c = Some permalink \<and>
        emojify pf (content c) (emojis c) = Inr body \<and>
        formatDate pf (created_at c) lang = Inr ts \<and>
        attachmentsHtml c = Inr att \<and>
        out = comment_template (escapeHtml picture) (escapeHtml name) (escapeHtml profile)
                (escapeHtml handle) (escapeHtml permalink) ts body att)) \<and>
   (markup_char ch \<and> same_frame c c' \<and> renderComment pf c lang = Inr out \<and>
    renderComment pf c' lang = Inr out' \<longrightarrow> count_list out' ch = count_list out ch) \<and>
   (emojify_step pf e str = Inr str' \<longrightarrow>
     (\<exists>u sc. emoji_url e = Some u \<and> shortcode e = Some sc \<and>
        RegExp_replace pf ('':'' @ sc @ '':'') (emoji_img (escapeHtml u) (escapeHtml sc)) str
          = Inr str')) \<and>
   (markup_char ch \<longrightarrow>
      count_list (emoji_img (escapeHtml u) (escapeHtml s)) ch = count_list (emoji_img [] []) ch) \<and>
   (comments_div w = Some getAttribute \<and> \<not> falsy (getAttribute ''data-mastodon-host'') \<and>
    \<not> falsy (getAttribute ''data-mastodon-post-id'') \<longrightarrow>
      comments_innerHTML (initMastodon pf w) =
        commentsHtml (case getAttribute ''data-mastodon-post-url'' of
                        None \<Rightarrow> [] | Some postUrl \<Rightarrow> escapeHtml postUrl)) \<and>
   (markup_char ch \<and> v \<noteq> [] \<and> v' \<noteq> [] \<longrightarrow>
      count_list (commentsHtml (escapeHtml v)) ch = count_list (commentsHtml (escapeHtml v')) ch)"
proof (intro conjI impI)
  show "renderComment pf c lang = Inr out \<longleftrightarrow>
     (\<exists>name handle profile picture permalink body ts att.
        js_or_null (display_name (account c)) (username (account c)) = Some name \<and>
        username (account c) = Some handle \<and> account_url (account c) = Some profile \<and>
        avatar (account c) = Some picture \<and> comment_url c = Some permalink \<and>
        emojify pf (content c) (emojis c) = Inr body \<and>
        formatDate pf (created_at c) lang = Inr ts \<and>
        attachmentsHtml c = Inr att \<and>
        out = comment_template (escapeHtml picture) (escapeHtml name) (escapeHtml profile)
                (escapeHtml handle) (escapeHtml permalink) ts body att)"
    by (rule renderComment_structure)
next
  assume "markup_char ch \<and> same_frame c c' \<and> renderComment pf c lang = Inr out \<and>
    renderComment pf c' lang = Inr out'"
  then show "count_list out' ch = count_list out ch"
    using renderComment_count by blast
next
  assume "emojify_step pf e str = Inr str'"
  then show "\<exists>u sc. emoji_url e = Some u \<and> shortcode e = Some sc \<and>
        RegExp_replace pf ('':'' @ sc @ '':'') (emoji_img (escapeHtml u) (escapeHtml sc)) str
          = Inr str'"
    by (cases "emoji_url e"; cases "shortcode e") (simp_all add: emojify_step_def Let_def)
next
  assume "markup_char ch"
  then show "count_list (emoji_img (escapeHtml u) (escapeHtml s)) ch = count_list (emoji_img [] []) ch"
    by (rule emoji_img_count)
next
  assume "comments_div w = Some getAttribute \<and> \<not> falsy (getAttribute ''data-mastodon-host'') \<and>
    \<not> falsy (getAttribute ''data-mastodon-post-id'')"
  then show "comments_innerHTML (initMastodon pf w) =
        commentsHtml (case getAttribute ''data-mastodon-post-url'' of
                        None \<Rightarrow> [] | Some postUrl \<Rightarrow> escapeHtml postUrl)"
    using initMastodon_innerHTML by blast
next
  assume "markup_char ch \<and> v \<noteq> [] \<and> v' \<noteq> []"
  then show "count_list (commentsHtml (escapeHtml v)) ch = count_list (commentsHtml (escapeHtml v')) ch"
    using commentsHtml_count by blast
qed

theorem sanitization_invariant_witness:
  "\<exists>out out'. renderComment test_platform reply2 ''en'' = Inr out \<and>
     renderComment test_platform (reply2\<lparr>account := mallory\<rparr>) ''en'' = Inr out' \<and>
     count_list out' (CHR ''<'') = count_list out (CHR ''<'') \<and>
     same_frame reply2 (reply2\<lparr>account := mallory\<rparr>) \<and> markup_char (CHR ''<'')"
proof -
  from reply2_renders obtain out where out: "renderComment test_platform reply2 ''en'' = Inr out" ..
  have "\<exists>f. renderComment test_platform (reply2\<lparr>account := mallory\<rparr>) ''en'' = Inr f"
    by (simp add: render_eval example_defs mallory_def)
  then obtain out' where
    out': "renderComment test_platform (reply2\<lparr>account := mallory\<rparr>) ''en'' = Inr out'" ..
  have f: "same_frame reply2 (reply2\<lparr>account := mallory\<rparr>)" by (simp add: same_frame_def)
  have m: "markup_char (CHR ''<'')" by (simp add: markup_char_def)
  from sanitization_invariant [where ch = "CHR ''<''" and c = reply2
      and c' = "reply2\<lparr>account := mallory\<rparr>" and pf = test_platform and lang = "''en''"
      and out = out and out' = out'] out out' f m
  have "count_list out' (CHR ''<'') = count_list out (CHR ''<'')" by blast
  with out out' f m show ?thesis by blast
qed

end
